theory Spec2Isabelle
  imports Complex_Main
begin

section \<open>Data model\<close>

text \<open>
  The types of the component \<^verbatim>\<open>DinoRetrievalApp\<close>. An optional field
  (\<^verbatim>\<open>url?: string\<close>) is an \<open>option\<close>: \<open>None\<close> is JavaScript's
  \<^verbatim>\<open>undefined\<close>. Strings are lists of characters; every pattern the code looks
  for is ASCII, so the unit a character stands for (byte or UTF-16 unit) does not matter.
\<close>

record GradioImageData =
  data_url :: "string option"
  data_path :: "string option"

record GradioImage =
  image :: "GradioImageData option"
  url :: "string option"
  path :: "string option"
  caption :: "string option"

text \<open>
  A JavaScript number as far as the decoders need it. \<open>Num q\<close> stands for the double
  that the conversion of the decimal text with exact value \<open>q\<close> yields (the rounding to
  binary floating point is outside the model); \<open>NaN\<close> is not-a-number.
\<close>

datatype number = NaN | Num rat

record recall_t =
  r1 :: number
  r5 :: number
  r10 :: number
  r100 :: number

record ParsedStats =
  precision :: number
  mapR :: number
  recall :: recall_t
  embeddings :: string
  dim :: number

section \<open>JavaScript operators used by the utilities\<close>

text \<open>
  \<^verbatim>\<open>a || b\<close> on \<^verbatim>\<open>string | undefined\<close>: a value is truthy when it is
  defined and not the empty string; the operator returns the left operand when it is
  truthy and the right operand otherwise.
\<close>

definition truthy :: "string option \<Rightarrow> bool" where
  "truthy a = (case a of None \<Rightarrow> False | Some s \<Rightarrow> s \<noteq> [])"

definition js_or :: "string option \<Rightarrow> string option \<Rightarrow> string option" where
  "js_or a b = (if truthy a then a else b)"

text \<open>The same operator with a string literal on the right: the result is a string.\<close>

definition js_or_str :: "string option \<Rightarrow> string \<Rightarrow> string" where
  "js_or_str a d = (case a of None \<Rightarrow> d | Some s \<Rightarrow> if s \<noteq> [] then s else d)"

text \<open>\<^verbatim>\<open>s.split("\n")\<close>: the segments between newlines; never an empty array.\<close>

fun split_nl :: "string \<Rightarrow> string list" where
  "split_nl [] = [[]]"
| "split_nl (c # cs) =
     (if c = CHR 0x0A then [] # split_nl cs
      else (case split_nl cs of [] \<Rightarrow> [[c]] | p # ps \<Rightarrow> (c # p) # ps))"

text \<open>\<^verbatim>\<open>parts[i]\<close>: \<^verbatim>\<open>undefined\<close> past the end of the array.\<close>

definition at_index :: "'a list \<Rightarrow> nat \<Rightarrow> 'a option" where
  "at_index xs i = (if i < length xs then Some (xs ! i) else None)"

text \<open>
  \<^verbatim>\<open>s.replace(pat, "")\<close> with a string pattern: the first occurrence of
  \<open>pat\<close>, wherever it stands in \<open>s\<close>, is removed; \<open>s\<close> is returned as it is when
  \<open>pat\<close> does not occur.
\<close>

fun replace_first :: "string \<Rightarrow> string \<Rightarrow> string" where
  "replace_first pat [] = []"
| "replace_first pat (c # cs) =
     (if take (length pat) (c # cs) = pat then drop (length pat) (c # cs)
      else c # replace_first pat cs)"

section \<open>Utility functions\<close>

text \<open>
  \<^verbatim>\<open>
  const getImageUrl = (item: GradioImage | null): string => {
    if (!item) return "";
    return item.image?.url || item.image?.path || item.url || item.path || "";
  };
  \<close>
\<close>

definition getImageUrl :: "GradioImage option \<Rightarrow> string" where
  "getImageUrl item =
     (case item of
        None \<Rightarrow> []
      | Some it \<Rightarrow>
          js_or_str
            (js_or (js_or (js_or (Option.bind (image it) data_url)
                                 (Option.bind (image it) data_path))
                          (url it))
                   (path it))
            [])"

text \<open>
  \<^verbatim>\<open>
  const parseCaption = (caption?: string) => {
    if (!caption) return { className: "Unknown", sim: "0.000" };
    const parts = caption.split("\n");
    const className = parts[0]?.replace("Class: ", "").replace("Label: ", "") || "Unknown";
    const sim = parts[1]?.replace("Sim: ", "") || "0.000";
    return { className, sim };
  };
  \<close>
  The result object is the pair \<open>(className, sim)\<close>.
\<close>

definition parseCaption :: "string option \<Rightarrow> string \<times> string" where
  "parseCaption cap =
     (if \<not> truthy cap then (''Unknown'', ''0.000'')
      else
        let parts = split_nl (the cap);
            className = js_or_str
              (map_option (\<lambda>p. replace_first ''Label: '' (replace_first ''Class: '' p))
                 (at_index parts 0))
              ''Unknown'';
            sim = js_or_str (map_option (replace_first ''Sim: '') (at_index parts 1)) ''0.000''
        in (className, sim))"

section \<open>The metrics decoder\<close>

subsection \<open>Regular expressions of the shape \<open>label(class+)suffix\<close>\<close>

text \<open>
  Every expression \<^verbatim>\<open>parseStats\<close> uses is a literal label, one capture group
  that is a greedy repetition (one or more) of a character class, and a literal suffix
  (\<^verbatim>\<open>%\<close> or nothing): \<^verbatim>\<open>/Precision@1: ([\d.]+)%/\<close>,
  \<^verbatim>\<open>/Total embeddings: (\d+)/\<close>. The matcher below is the backtracking
  semantics of such an expression: at a start position the label must match, the group
  first takes the longest run of class characters and gives characters back one at a time
  until the suffix matches; \<^verbatim>\<open>raw.match\<close> tries the start positions from left to
  right and \<open>regex_capture\<close> is \<^verbatim>\<open>match[1]\<close> of the first success, \<open>None\<close>
  when \<^verbatim>\<open>match\<close> is \<^verbatim>\<open>null\<close>.
\<close>

definition is_digit :: "char \<Rightarrow> bool" where
  "is_digit c = (c \<in> set ''0123456789'')"

definition is_digit_or_dot :: "char \<Rightarrow> bool" where
  "is_digit_or_dot c = (is_digit c \<or> c = CHR ''.'')"

fun backtrack :: "nat \<Rightarrow> string \<Rightarrow> string \<Rightarrow> string option" where
  "backtrack 0 rest suffix = None"
| "backtrack (Suc n) rest suffix =
     (if take (length suffix) (drop (Suc n) rest) = suffix then Some (take (Suc n) rest)
      else backtrack n rest suffix)"

definition match_here :: "string \<Rightarrow> (char \<Rightarrow> bool) \<Rightarrow> string \<Rightarrow> string \<Rightarrow> string option" where
  "match_here label cls suffix s =
     (if take (length label) s = label
      then let rest = drop (length label) s
           in backtrack (length (takeWhile cls rest)) rest suffix
      else None)"

fun regex_capture :: "string \<Rightarrow> (char \<Rightarrow> bool) \<Rightarrow> string \<Rightarrow> string \<Rightarrow> string option" where
  "regex_capture label cls suffix [] = match_here label cls suffix []"
| "regex_capture label cls suffix (c # cs) =
     (case match_here label cls suffix (c # cs) of
        Some cap \<Rightarrow> Some cap
      | None \<Rightarrow> regex_capture label cls suffix cs)"

subsection \<open>\<^verbatim>\<open>parseFloat\<close> and \<^verbatim>\<open>parseInt\<close>\<close>

text \<open>
  Both built-ins convert the longest leading numeral of their argument and return
  \<^verbatim>\<open>NaN\<close> when there is none. The capture groups deliver only digits and dots, so
  the numeral is a run of digits, optionally a dot and a second run of digits, one of the
  two runs at least non-empty (\<^verbatim>\<open>parseFloat\<close>), or a run of digits
  (\<^verbatim>\<open>parseInt\<close>); signs, exponents and leading blanks cannot occur and are not
  modelled.
\<close>

definition digit_of :: "char \<Rightarrow> nat" where
  "digit_of c = of_char c - 48"

definition digits_val :: "string \<Rightarrow> nat" where
  "digits_val ds = foldl (\<lambda>a c. 10 * a + digit_of c) 0 ds"

definition parseFloat :: "string \<Rightarrow> number" where
  "parseFloat s =
     (let ip = takeWhile is_digit s;
          r = dropWhile is_digit s;
          fp = (case r of [] \<Rightarrow> [] | c # t \<Rightarrow> if c = CHR ''.'' then takeWhile is_digit t else [])
      in if ip = [] \<and> fp = [] then NaN
         else Num (of_nat (digits_val ip) + of_nat (digits_val fp) / 10 ^ length fp))"

definition parseInt :: "string \<Rightarrow> number" where
  "parseInt s =
     (let ip = takeWhile is_digit s
      in if ip = [] then NaN else Num (of_nat (digits_val ip)))"

subsection \<open>\<^verbatim>\<open>parseStats\<close>\<close>

text \<open>
  \<^verbatim>\<open>
  const parseStats = (raw: string): ParsedStats | null => {
    try {
      const getNum = (regex: RegExp) => {
        const match = raw.match(regex);
        return match ? parseFloat(match[1]) : 0;
      };
      return {
        precision: getNum(/Precision@1: ([\d.]+)%/),
        mapR: getNum(/MAP@R: ([\d.]+)%/),
        recall: {
          r1: getNum(/R@1: ([\d.]+)%/), r5: getNum(/R@5: ([\d.]+)%/),
          r10: getNum(/R@10: ([\d.]+)%/), r100: getNum(/R@100: ([\d.]+)%/),
        },
        embeddings: raw.match(/Total embeddings: (\d+)/)?.[1] || "0",
        dim: parseInt(raw.match(/Embedding dimension: (\d+)/)?.[1] || "0"),
      };
    } catch { return null; }
  };
  \<close>
  \<open>None\<close> is \<^verbatim>\<open>null\<close>. On a string no statement of the \<^verbatim>\<open>try\<close> block
  throws, so \<open>parseStats\<close>, the function on strings, never takes the \<^verbatim>\<open>catch\<close>
  branch. The branch is taken when the argument is not a string, which the type of the
  parameter does not exclude at run time: the call site passes \<^verbatim>\<open>data[1]\<close> of a
  network response after an unchecked cast. \<open>parseStats_payload\<close> is the function on
  such a value, \<open>Some raw\<close> for the string \<open>raw\<close> and \<open>None\<close> for anything else
  (\<^verbatim>\<open>undefined\<close>, \<^verbatim>\<open>null\<close>, a number): there \<^verbatim>\<open>raw.match\<close> throws
  inside the \<^verbatim>\<open>try\<close> and the \<^verbatim>\<open>catch\<close> returns \<^verbatim>\<open>null\<close>.
\<close>

definition getNum :: "string \<Rightarrow> string \<Rightarrow> number" where
  "getNum raw label =
     (case regex_capture label is_digit_or_dot ''%'' raw of
        Some m \<Rightarrow> parseFloat m
      | None \<Rightarrow> Num 0)"

definition parseStats :: "string \<Rightarrow> ParsedStats option" where
  "parseStats raw =
     Some \<lparr> precision = getNum raw ''Precision@1: '',
            mapR = getNum raw ''MAP@R: '',
            recall = \<lparr> r1 = getNum raw ''R@1: '', r5 = getNum raw ''R@5: '',
                       r10 = getNum raw ''R@10: '', r100 = getNum raw ''R@100: '' \<rparr>,
            embeddings = js_or_str (regex_capture ''Total embeddings: '' is_digit [] raw) ''0'',
            dim = parseInt (js_or_str (regex_capture ''Embedding dimension: '' is_digit [] raw) ''0'') \<rparr>"

definition parseStats_payload :: "string option \<Rightarrow> ParsedStats option" where
  "parseStats_payload payload = (case payload of None \<Rightarrow> None | Some raw \<Rightarrow> parseStats raw)"

section \<open>The session controller\<close>

subsection \<open>State, tasks and events\<close>

text \<open>
  The repository holds two revisions of the component: \<^verbatim>\<open>src/app/page.tsx\<close>
  (\<open>PageTsx\<close>) and \<^verbatim>\<open>src/unnamed/part_000\<close> (\<open>Part000\<close>). They share
  \<^verbatim>\<open>getGradioClient\<close> and \<^verbatim>\<open>handleSearch\<close>; they differ in the progress
  texts and in how \<^verbatim>\<open>loadResources\<close> fetches the examples (inline in the first,
  through \<^verbatim>\<open>refreshExamples\<close>, which only the second has, in the second).
\<close>

datatype revision = PageTsx | Part000

text \<open>A connection handle (\<^verbatim>\<open>Client\<close>) is known by an identifier.\<close>

type_synonym client = nat

text \<open>
  The argument of \<^verbatim>\<open>handleSearch\<close>: a \<^verbatim>\<open>File\<close> or \<^verbatim>\<open>Blob\<close>, known
  by the string \<^verbatim>\<open>URL.createObjectURL\<close> returns for it in this call (the browser
  mints it), or a \<^verbatim>\<open>GradioImage\<close>.
\<close>

datatype source = Binary (createObjectURL: string) | ImageRef GradioImage

text \<open>The \<^verbatim>\<open>image_input\<close> handed to the backend.\<close>

datatype image_input = RawBinary string | handle_file string

text \<open>The payload of \<^verbatim>\<open>/load_resources\<close>.\<close>

record load_request =
  req_dataset :: string
  dino_version :: string
  dino_size :: string
  is_finetuned :: bool

text \<open>
  The \<^verbatim>\<open>data\<close> of a resolved \<^verbatim>\<open>predict\<close>, by endpoint. The second component
  of the data of \<^verbatim>\<open>/load_resources\<close> is the metrics payload as it arrives: \<open>Some\<close>
  of the text when it is a string, \<open>None\<close> when it is not.
\<close>

datatype response =
    SearchResponse "GradioImage list" string
  | LoadResourcesResponse string "string option"
  | RefreshExamplesResponse "GradioImage list option"

text \<open>
  A call of an \<^verbatim>\<open>async\<close> function that is suspended at an \<^verbatim>\<open>await\<close>,
  with the local variables it still needs. \<open>Connect\<close> states wait for the
  \<^verbatim>\<open>Client.connect\<close> that this call's own \<^verbatim>\<open>getGradioClient\<close> started;
  \<open>Predict\<close> states wait for \<^verbatim>\<open>client.predict\<close>. \<open>LoadExamples\<close> states are
  \<^verbatim>\<open>loadResources\<close> after its first \<^verbatim>\<open>predict\<close>, fetching the examples.
\<close>

datatype task =
    SearchConnect source nat
  | SearchPredict client image_input nat
  | LoadConnect load_request
  | LoadPredict client load_request
  | LoadExamplesConnect
  | LoadExamplesPredict client
  | RefreshConnect
  | RefreshPredict client
  | Finished

text \<open>
  The \<^verbatim>\<open>useState\<close> cells and the \<^verbatim>\<open>useRef\<close> cell of the component, and the
  suspended calls; a task's identifier is its index in \<open>tasks\<close>. The cell
  \<^verbatim>\<open>size\<close> is \<open>size_cfg\<close> here.
\<close>

record session =
  dataset :: string
  size_cfg :: string
  isFinetuned :: bool
  topK :: nat
  status :: string
  stats :: "ParsedStats option"
  examples :: "GradioImage list"
  results :: "GradioImage list"
  activeQuery :: "string option"
  isLoading :: bool
  isExamplesLoading :: bool
  isSearching :: bool
  clientRef :: "client option"
  tasks :: "task list"

definition init :: session where
  "init = \<lparr> dataset = ''Cars196'', size_cfg = ''b'', isFinetuned = False, topK = 10,
            status = ''Initializing...'', stats = None, examples = [], results = [],
            activeQuery = None, isLoading = False, isExamplesLoading = False,
            isSearching = False, clientRef = None, tasks = [] \<rparr>"

text \<open>
  What happens to the component: the first render's effect (\<open>Mount\<close>), the user's
  actions, and the settlements of the pending backend calls, each naming the task that
  waits for it.
\<close>

datatype event =
    Mount
  | SetDataset string
  | SetSize string
  | SetIsFinetuned bool
  | SetTopK nat
  | ClickRefresh
  | HandleSearch source
  | ConnectResolved nat client
  | ConnectRejected nat
  | PredictResolved nat response
  | PredictRejected nat

subsection \<open>\<^verbatim>\<open>getGradioClient\<close>\<close>

text \<open>
  \<^verbatim>\<open>
  const getGradioClient = async (): Promise<Client> => {
    if (clientRef.current) return clientRef.current;
    const client = await Client.connect("pawlo2013/Dinov3_Image_Retrieval");
    clientRef.current = client;
    return client;
  };
  \<close>
  The call runs up to its first \<^verbatim>\<open>await\<close>: \<open>getGradioClient s\<close> is \<open>Some c\<close>
  when it returns the memoized handle, and \<open>None\<close> when it has called
  \<^verbatim>\<open>Client.connect\<close> and waits for it. \<open>getGradioClient_settled\<close> is the rest of
  the body, run when that \<^verbatim>\<open>Client.connect\<close> settles: a rejection (\<open>None\<close>)
  leaves the body at the \<^verbatim>\<open>await\<close> and rejects the caller's \<^verbatim>\<open>await\<close>; a
  resolution stores the handle and hands it to the caller.
\<close>

definition getGradioClient :: "session \<Rightarrow> client option" where
  "getGradioClient s = (case clientRef s of Some c \<Rightarrow> Some c | None \<Rightarrow> None)"

definition getGradioClient_settled :: "session \<Rightarrow> client option \<Rightarrow> session \<times> client option" where
  "getGradioClient_settled s outcome =
     (case outcome of
        None \<Rightarrow> (s, None)
      | Some c \<Rightarrow> (s\<lparr>clientRef := Some c\<rparr>, Some c))"

definition spawn :: "task \<Rightarrow> session \<Rightarrow> session" where
  "spawn t s = s\<lparr>tasks := tasks s @ [t]\<rparr>"

subsection \<open>\<^verbatim>\<open>handleSearch\<close>\<close>

text \<open>
  \<^verbatim>\<open>
  const handleSearch = useCallback(async (source: GradioImage | File | Blob) => {
    setIsSearching(true);
    setStatus("Analyzing Visual Semantics...");
    let previewUrl = "";
    if (source instanceof File || source instanceof Blob) {
      previewUrl = URL.createObjectURL(source);
    } else {
      previewUrl = getImageUrl(source);
    }
    setActiveQuery(previewUrl);
    try {
      const client = await getGradioClient();
      const input = (source instanceof File || source instanceof Blob)
        ? source : handle_file(getImageUrl(source));
      const result = await client.predict("/process_image", {
        image_input: input, k_neighbors: topK,
      });
      const data = result.data as SearchResponse;
      setResults(data[0]);
      setStatus(data[1]);
    } catch (err) {
      console.error(err);
      setStatus("Search Failed");
    } finally {
      setIsSearching(false);
    }
  }, [topK]);
  \<close>
  The call runs without interruption up to the first \<^verbatim>\<open>await\<close> that waits for the
  backend: \<^verbatim>\<open>Client.connect\<close> when no handle is memoized, \<^verbatim>\<open>predict\<close>
  otherwise.
\<close>

definition searching_status :: "revision \<Rightarrow> string" where
  "searching_status v =
     (case v of PageTsx \<Rightarrow> ''Analyzing Visual Features...''
              | Part000 \<Rightarrow> ''Analyzing Visual Semantics...'')"

definition previewUrl :: "source \<Rightarrow> string" where
  "previewUrl src = (case src of Binary u \<Rightarrow> u | ImageRef g \<Rightarrow> getImageUrl (Some g))"

definition search_input :: "source \<Rightarrow> image_input" where
  "search_input src =
     (case src of Binary u \<Rightarrow> RawBinary u | ImageRef g \<Rightarrow> handle_file (getImageUrl (Some g)))"

definition handleSearch :: "revision \<Rightarrow> source \<Rightarrow> session \<Rightarrow> session" where
  "handleSearch v src s =
     (let s1 = s\<lparr>isSearching := True, status := searching_status v,
                 activeQuery := Some (previewUrl src)\<rparr>
      in case getGradioClient s1 of
           None \<Rightarrow> spawn (SearchConnect src (topK s)) s1
         | Some c \<Rightarrow> spawn (SearchPredict c (search_input src) (topK s)) s1)"

definition search_failed :: "session \<Rightarrow> session" where
  "search_failed s = s\<lparr>status := ''Search Failed'', isSearching := False\<rparr>"

subsection \<open>\<^verbatim>\<open>refreshExamples\<close> and \<^verbatim>\<open>loadResources\<close>\<close>

text \<open>
  \<^verbatim>\<open>
  const refreshExamples = async () => {
    setIsExamplesLoading(true);
    try {
      const client = await getGradioClient();
      const exResult = await client.predict("/refresh_examples_wrapper", {});
      const exData = exResult.data as RefreshExamplesResponse;
      setExamples(exData[0] || []);
    } catch (err) {
      console.error("Failed to refresh examples:", err);
    } finally {
      setIsExamplesLoading(false);
    }
  };

  const loadResources = async () => {
    setIsLoading(true);
    setStatus("Downloading Weights & Mapping...");
    try {
      const client = await getGradioClient();
      const result = await client.predict("/load_resources", {
        dataset, dino_version: "3", dino_size: size, is_finetuned: isFinetuned,
      });
      const data = result.data as LoadResourcesResponse;
      setStatus(data[0]);
      setStats(parseStats(data[1]));
      await refreshExamples();
    } catch {
      setStatus("Sync Failed");
    } finally {
      setIsLoading(false);
    }
  };
  \<close>
  In \<^verbatim>\<open>page.tsx\<close> the progress text is \<^verbatim>\<open>"Loading Model & Index..."\<close> and
  the line \<^verbatim>\<open>await refreshExamples()\<close> is
  \<^verbatim>\<open>
      const exResult = await client.predict("/refresh_examples_wrapper", {});
      const exData = exResult.data as RefreshExamplesResponse;
      setExamples(exData[0] || []);
  \<close>
  inside the \<^verbatim>\<open>try\<close> of \<^verbatim>\<open>loadResources\<close>.
\<close>

definition loading_status :: "revision \<Rightarrow> string" where
  "loading_status v =
     (case v of PageTsx \<Rightarrow> ''Loading Model & Index...''
              | Part000 \<Rightarrow> ''Downloading Weights & Mapping...'')"

definition current_request :: "session \<Rightarrow> load_request" where
  "current_request s =
     \<lparr> req_dataset = dataset s, dino_version = ''3'', dino_size = size_cfg s,
       is_finetuned = isFinetuned s \<rparr>"

definition loadResources :: "revision \<Rightarrow> session \<Rightarrow> session" where
  "loadResources v s =
     (let s1 = s\<lparr>isLoading := True, status := loading_status v\<rparr>
      in case getGradioClient s1 of
           None \<Rightarrow> spawn (LoadConnect (current_request s)) s1
         | Some c \<Rightarrow> spawn (LoadPredict c (current_request s)) s1)"

definition refreshExamples_begin :: "session \<Rightarrow> session \<times> client option" where
  "refreshExamples_begin s =
     (let s1 = s\<lparr>isExamplesLoading := True\<rparr> in (s1, getGradioClient s1))"

definition refreshExamples :: "session \<Rightarrow> session" where
  "refreshExamples s =
     (case refreshExamples_begin s of
        (s1, None) \<Rightarrow> spawn RefreshConnect s1
      | (s1, Some c) \<Rightarrow> spawn (RefreshPredict c) s1)"

definition sync_failed :: "session \<Rightarrow> session" where
  "sync_failed s = s\<lparr>status := ''Sync Failed'', isLoading := False\<rparr>"

text \<open>\<^verbatim>\<open>exData[0] || []\<close>: an array, also an empty one, is truthy.\<close>

definition examples_or_empty :: "GradioImage list option \<Rightarrow> GradioImage list" where
  "examples_or_empty ex = (case ex of None \<Rightarrow> [] | Some l \<Rightarrow> l)"

subsection \<open>Resuming a suspended call\<close>

text \<open>
  A settlement is \<open>Some x\<close> for a resolution with \<open>x\<close> and \<open>None\<close> for a rejection.
  Each function below is the part of a body between the \<^verbatim>\<open>await\<close> that has
  settled and the next \<^verbatim>\<open>await\<close> on the backend (or the end of the body, through
  \<^verbatim>\<open>catch\<close> and \<^verbatim>\<open>finally\<close>); it yields the new cells and the state the call
  is suspended in afterwards. A resolution with the data of another endpoint is not a
  settlement the call can see (\<open>None\<close> as result). An \<^verbatim>\<open>await\<close> on a promise that
  is already settled (the memoized handle, a finished \<^verbatim>\<open>refreshExamples\<close>) resumes
  before any further backend settlement is delivered, so it does not end a part.
\<close>

definition handleSearch_connect_settled ::
  "source \<Rightarrow> nat \<Rightarrow> session \<Rightarrow> client option \<Rightarrow> session \<times> task" where
  "handleSearch_connect_settled src k s outcome =
     (case getGradioClient_settled s outcome of
        (s1, Some c) \<Rightarrow> (s1, SearchPredict c (search_input src) k)
      | (s1, None) \<Rightarrow> (search_failed s1, Finished))"

definition handleSearch_predict_settled ::
  "session \<Rightarrow> response option \<Rightarrow> (session \<times> task) option" where
  "handleSearch_predict_settled s outcome =
     (case outcome of
        None \<Rightarrow> Some (search_failed s, Finished)
      | Some (SearchResponse imgs st) \<Rightarrow>
          Some (s\<lparr>results := imgs, status := st, isSearching := False\<rparr>, Finished)
      | Some _ \<Rightarrow> None)"

definition refreshExamples_connect_settled ::
  "session \<Rightarrow> client option \<Rightarrow> session \<times> client option" where
  "refreshExamples_connect_settled s outcome =
     (case getGradioClient_settled s outcome of
        (s1, Some c) \<Rightarrow> (s1, Some c)
      | (s1, None) \<Rightarrow> (s1\<lparr>isExamplesLoading := False\<rparr>, None))"

definition refreshExamples_predict_settled ::
  "session \<Rightarrow> response option \<Rightarrow> session option" where
  "refreshExamples_predict_settled s outcome =
     (case outcome of
        None \<Rightarrow> Some (s\<lparr>isExamplesLoading := False\<rparr>)
      | Some (RefreshExamplesResponse ex) \<Rightarrow>
          Some (s\<lparr>examples := examples_or_empty ex, isExamplesLoading := False\<rparr>)
      | Some _ \<Rightarrow> None)"

definition loadResources_connect_settled ::
  "load_request \<Rightarrow> session \<Rightarrow> client option \<Rightarrow> session \<times> task" where
  "loadResources_connect_settled req s outcome =
     (case getGradioClient_settled s outcome of
        (s1, Some c) \<Rightarrow> (s1, LoadPredict c req)
      | (s1, None) \<Rightarrow> (sync_failed s1, Finished))"

definition loadResources_predict_settled ::
  "revision \<Rightarrow> client \<Rightarrow> session \<Rightarrow> response option \<Rightarrow> (session \<times> task) option" where
  "loadResources_predict_settled v c s outcome =
     (case outcome of
        None \<Rightarrow> Some (sync_failed s, Finished)
      | Some (LoadResourcesResponse st raw) \<Rightarrow>
          (let s1 = s\<lparr>status := st, stats := parseStats_payload raw\<rparr>
           in case v of
                PageTsx \<Rightarrow> Some (s1, LoadExamplesPredict c)
              | Part000 \<Rightarrow>
                  (case refreshExamples_begin s1 of
                     (s2, None) \<Rightarrow> Some (s2, LoadExamplesConnect)
                   | (s2, Some c') \<Rightarrow> Some (s2, LoadExamplesPredict c')))
      | Some _ \<Rightarrow> None)"

definition loadResources_examples_connect_settled ::
  "session \<Rightarrow> client option \<Rightarrow> session \<times> task" where
  "loadResources_examples_connect_settled s outcome =
     (case refreshExamples_connect_settled s outcome of
        (s1, Some c) \<Rightarrow> (s1, LoadExamplesPredict c)
      | (s1, None) \<Rightarrow> (s1\<lparr>isLoading := False\<rparr>, Finished))"

definition loadResources_examples_settled ::
  "revision \<Rightarrow> session \<Rightarrow> response option \<Rightarrow> (session \<times> task) option" where
  "loadResources_examples_settled v s outcome =
     (case v of
        PageTsx \<Rightarrow>
          (case outcome of
             None \<Rightarrow> Some (sync_failed s, Finished)
           | Some (RefreshExamplesResponse ex) \<Rightarrow>
               Some (s\<lparr>examples := examples_or_empty ex, isLoading := False\<rparr>, Finished)
           | Some _ \<Rightarrow> None)
      | Part000 \<Rightarrow>
          map_option (\<lambda>s1. (s1\<lparr>isLoading := False\<rparr>, Finished))
            (refreshExamples_predict_settled s outcome))"

definition connect_outcome :: "event \<Rightarrow> client option option" where
  "connect_outcome e =
     (case e of ConnectResolved _ c \<Rightarrow> Some (Some c) | ConnectRejected _ \<Rightarrow> Some None
              | _ \<Rightarrow> None)"

definition predict_outcome :: "event \<Rightarrow> response option option" where
  "predict_outcome e =
     (case e of PredictResolved _ r \<Rightarrow> Some (Some r) | PredictRejected _ \<Rightarrow> Some None
              | _ \<Rightarrow> None)"

definition resume :: "revision \<Rightarrow> task \<Rightarrow> event \<Rightarrow> session \<Rightarrow> (session \<times> task) option" where
  "resume v t e s =
     (case t of
        SearchConnect src k \<Rightarrow>
          map_option (handleSearch_connect_settled src k s) (connect_outcome e)
      | SearchPredict c i k \<Rightarrow>
          Option.bind (predict_outcome e) (handleSearch_predict_settled s)
      | LoadConnect req \<Rightarrow>
          map_option (loadResources_connect_settled req s) (connect_outcome e)
      | LoadPredict c req \<Rightarrow>
          Option.bind (predict_outcome e) (loadResources_predict_settled v c s)
      | LoadExamplesConnect \<Rightarrow>
          map_option (loadResources_examples_connect_settled s) (connect_outcome e)
      | LoadExamplesPredict c \<Rightarrow>
          Option.bind (predict_outcome e) (loadResources_examples_settled v s)
      | RefreshConnect \<Rightarrow>
          map_option
            (\<lambda>outcome. case refreshExamples_connect_settled s outcome of
                          (s1, Some c) \<Rightarrow> (s1, RefreshPredict c)
                        | (s1, None) \<Rightarrow> (s1, Finished))
            (connect_outcome e)
      | RefreshPredict c \<Rightarrow>
          map_option (\<lambda>s1. (s1, Finished))
            (Option.bind (predict_outcome e) (refreshExamples_predict_settled s))
      | Finished \<Rightarrow> None)"

subsection \<open>One event, and a sequence of events\<close>

text \<open>
  \<^verbatim>\<open>useEffect(() => { loadResources(); }, [dataset, size, isFinetuned])\<close> runs
  \<^verbatim>\<open>loadResources\<close> after the first render and after every render in which one of
  the three cells has a new value; the call reads the new values. Setting a cell to the
  value it holds changes nothing. \<open>step\<close> is \<open>None\<close> for an event that cannot happen
  in the state: the settlement of a call that is not pending, or a click on the refresh
  button that \<^verbatim>\<open>page.tsx\<close> does not have.
\<close>

definition settle :: "revision \<Rightarrow> nat \<Rightarrow> event \<Rightarrow> session \<Rightarrow> session option" where
  "settle v i e s =
     (if i < length (tasks s)
      then map_option (\<lambda>(s1, t). s1\<lparr>tasks := (tasks s1)[i := t]\<rparr>)
             (resume v (tasks s ! i) e s)
      else None)"

definition step :: "revision \<Rightarrow> session \<Rightarrow> event \<Rightarrow> session option" where
  "step v s e =
     (case e of
        Mount \<Rightarrow> Some (loadResources v s)
      | SetDataset d \<Rightarrow>
          Some (if d = dataset s then s else loadResources v (s\<lparr>dataset := d\<rparr>))
      | SetSize z \<Rightarrow>
          Some (if z = size_cfg s then s else loadResources v (s\<lparr>size_cfg := z\<rparr>))
      | SetIsFinetuned b \<Rightarrow>
          Some (if b = isFinetuned s then s else loadResources v (s\<lparr>isFinetuned := b\<rparr>))
      | SetTopK k \<Rightarrow> Some (s\<lparr>topK := k\<rparr>)
      | ClickRefresh \<Rightarrow> (case v of PageTsx \<Rightarrow> None | Part000 \<Rightarrow> Some (refreshExamples s))
      | HandleSearch src \<Rightarrow> Some (handleSearch v src s)
      | ConnectResolved i c \<Rightarrow> settle v i e s
      | ConnectRejected i \<Rightarrow> settle v i e s
      | PredictResolved i r \<Rightarrow> settle v i e s
      | PredictRejected i \<Rightarrow> settle v i e s)"

fun run :: "revision \<Rightarrow> session \<Rightarrow> event list \<Rightarrow> session option" where
  "run v s [] = Some s"
| "run v s (e # es) = (case step v s e of None \<Rightarrow> None | Some s1 \<Rightarrow> run v s1 es)"

section \<open>The caption decoder as the specification words it\<close>

text \<open>
  The specification's \<^verbatim>\<open>decodeCaption\<close>, written from its words and not from the
  code: the text is split on newline; a known prefix (\<^verbatim>\<open>"Class: "\<close> or
  \<^verbatim>\<open>"Label: "\<close>) is stripped from segment 1 and \<^verbatim>\<open>"Sim: "\<close> from segment 2;
  the label is \<^verbatim>\<open>"Unknown"\<close> and the similarity \<^verbatim>\<open>"0.000"\<close> when the input
  is absent or empty, and the similarity is \<^verbatim>\<open>"0.000"\<close> when there is no second
  segment.
\<close>

definition strip_prefix :: "string \<Rightarrow> string \<Rightarrow> string" where
  "strip_prefix p s = (if take (length p) s = p then drop (length p) s else s)"

definition decodeCaption_spec :: "string option \<Rightarrow> string \<times> string" where
  "decodeCaption_spec cap =
     (case cap of
        None \<Rightarrow> (''Unknown'', ''0.000'')
      | Some c \<Rightarrow>
          if c = [] then (''Unknown'', ''0.000'')
          else (case split_nl c of
                  [] \<Rightarrow> (''Unknown'', ''0.000'')
                | [s1] \<Rightarrow>
                    (if take 7 s1 = ''Class: '' then drop 7 s1 else strip_prefix ''Label: '' s1,
                     ''0.000'')
                | s1 # s2 # _ \<Rightarrow>
                    (if take 7 s1 = ''Class: '' then drop 7 s1 else strip_prefix ''Label: '' s1,
                     strip_prefix ''Sim: '' s2)))"

section \<open>Vocabulary of the statements about the caption decoder\<close>

text \<open>
  \<open>occurs p s\<close>: the string \<open>p\<close> stands somewhere in \<open>s\<close>. \<open>caption_label\<close> and
  \<open>caption_sim\<close> are what \<^verbatim>\<open>parseCaption\<close> makes of a first and of a second
  segment.
\<close>

definition occurs :: "string \<Rightarrow> string \<Rightarrow> bool" where
  "occurs p s = list_ex (\<lambda>i. take (length p) (drop i s) = p) [0..<Suc (length s)]"

definition caption_label :: "string \<Rightarrow> string" where
  "caption_label seg =
     js_or_str (Some (replace_first ''Label: '' (replace_first ''Class: '' seg))) ''Unknown''"

definition caption_sim :: "string \<Rightarrow> string" where
  "caption_sim seg = js_or_str (Some (replace_first ''Sim: '' seg)) ''0.000''"

section \<open>Vocabulary of the statements about the metrics decoder\<close>

text \<open>
  What it means that the text \<open>raw\<close> holds the labelled pattern, said without the
  matcher: \<open>raw\<close> is some text \<open>pre\<close>, the label, a non-empty run \<open>cap\<close> of characters
  of the class, the suffix, and some rest. \<open>first_capture\<close> is the run of the leftmost
  such occurrence, the longest one at that place. \<open>decoded_field\<close> is the contract of one
  field: the default when the pattern is nowhere in the text, the conversion of the first
  capture when it is.
\<close>

definition is_occurrence ::
  "string \<Rightarrow> (char \<Rightarrow> bool) \<Rightarrow> string \<Rightarrow> string \<Rightarrow> string \<Rightarrow> string \<Rightarrow> bool" where
  "is_occurrence label cls suffix raw pre cap =
     (\<exists>rest. raw = pre @ label @ cap @ suffix @ rest \<and> cap \<noteq> [] \<and> (\<forall>c \<in> set cap. cls c))"

definition pattern_present :: "string \<Rightarrow> (char \<Rightarrow> bool) \<Rightarrow> string \<Rightarrow> string \<Rightarrow> bool" where
  "pattern_present label cls suffix raw = (\<exists>pre cap. is_occurrence label cls suffix raw pre cap)"

definition first_capture ::
  "string \<Rightarrow> (char \<Rightarrow> bool) \<Rightarrow> string \<Rightarrow> string \<Rightarrow> string \<Rightarrow> bool" where
  "first_capture label cls suffix raw cap =
     (\<exists>pre. is_occurrence label cls suffix raw pre cap \<and>
        (\<forall>pre' cap'. is_occurrence label cls suffix raw pre' cap' \<longrightarrow>
           length pre < length pre' \<or> (length pre = length pre' \<and> length cap' \<le> length cap)))"

definition decoded_field ::
  "string \<Rightarrow> (char \<Rightarrow> bool) \<Rightarrow> string \<Rightarrow> string \<Rightarrow> 'a \<Rightarrow> (string \<Rightarrow> 'a) \<Rightarrow> 'a \<Rightarrow> bool" where
  "decoded_field label cls suffix raw dflt conv v =
     ((\<not> pattern_present label cls suffix raw \<longrightarrow> v = dflt) \<and>
      (pattern_present label cls suffix raw \<longrightarrow>
         (\<exists>cap. first_capture label cls suffix raw cap \<and> v = conv cap)))"

section \<open>Vocabulary of the statements about the session controller\<close>

text \<open>
  What a sequence of events has settled or triggered last: the data of the last resolved
  search, of the last resolved resource load, the handle of the last resolved connection
  attempt, and the argument of the last call of \<^verbatim>\<open>handleSearch\<close>.
\<close>

fun last_search_response :: "event list \<Rightarrow> (GradioImage list \<times> string) option" where
  "last_search_response [] = None"
| "last_search_response (e # es) =
     (case last_search_response es of
        Some r \<Rightarrow> Some r
      | None \<Rightarrow> (case e of PredictResolved _ (SearchResponse imgs st) \<Rightarrow> Some (imgs, st)
                         | _ \<Rightarrow> None))"

fun last_load_response :: "event list \<Rightarrow> (string \<times> string option) option" where
  "last_load_response [] = None"
| "last_load_response (e # es) =
     (case last_load_response es of
        Some r \<Rightarrow> Some r
      | None \<Rightarrow> (case e of PredictResolved _ (LoadResourcesResponse st raw) \<Rightarrow> Some (st, raw)
                         | _ \<Rightarrow> None))"

fun last_connect_resolved :: "event list \<Rightarrow> client option" where
  "last_connect_resolved [] = None"
| "last_connect_resolved (e # es) =
     (case last_connect_resolved es of
        Some c \<Rightarrow> Some c
      | None \<Rightarrow> (case e of ConnectResolved _ c \<Rightarrow> Some c | _ \<Rightarrow> None))"

fun last_search_trigger :: "event list \<Rightarrow> source option" where
  "last_search_trigger [] = None"
| "last_search_trigger (e # es) =
     (case last_search_trigger es of
        Some src \<Rightarrow> Some src
      | None \<Rightarrow> (case e of HandleSearch src \<Rightarrow> Some src | _ \<Rightarrow> None))"

text \<open>
  A task that waits for \<^verbatim>\<open>Client.connect\<close> is a connection attempt in flight. A
  task that waits for \<^verbatim>\<open>predict\<close> holds the handle its call of
  \<^verbatim>\<open>getGradioClient\<close> returned. \<open>calls_getter\<close> singles out the events that call
  \<^verbatim>\<open>getGradioClient\<close> whatever the state: the first render's effect, a search and,
  where the button exists, a click on refresh. \<open>reaches_load_catch\<close> holds of a task
  whose rejection ends in the \<^verbatim>\<open>catch\<close> of \<^verbatim>\<open>loadResources\<close>, \<open>is_search\<close>
  of a suspended \<^verbatim>\<open>handleSearch\<close>, and \<open>task_request\<close> is the dataset a suspended
  \<^verbatim>\<open>loadResources\<close> asked for.
\<close>

definition is_connecting :: "task \<Rightarrow> bool" where
  "is_connecting t =
     (case t of SearchConnect _ _ \<Rightarrow> True | LoadConnect _ \<Rightarrow> True
              | LoadExamplesConnect \<Rightarrow> True | RefreshConnect \<Rightarrow> True | _ \<Rightarrow> False)"

definition inflight_connects :: "session \<Rightarrow> nat" where
  "inflight_connects s = length (filter is_connecting (tasks s))"

definition task_client :: "task \<Rightarrow> client option" where
  "task_client t =
     (case t of SearchPredict c _ _ \<Rightarrow> Some c | LoadPredict c _ \<Rightarrow> Some c
              | LoadExamplesPredict c \<Rightarrow> Some c | RefreshPredict c \<Rightarrow> Some c | _ \<Rightarrow> None)"

definition calls_getter :: "revision \<Rightarrow> event \<Rightarrow> bool" where
  "calls_getter v e =
     (case e of Mount \<Rightarrow> True | HandleSearch _ \<Rightarrow> True | ClickRefresh \<Rightarrow> v = Part000
              | _ \<Rightarrow> False)"


definition is_search :: "task \<Rightarrow> bool" where
  "is_search t = (case t of SearchConnect _ _ \<Rightarrow> True | SearchPredict _ _ _ \<Rightarrow> True | _ \<Rightarrow> False)"

definition task_request :: "task \<Rightarrow> string option" where
  "task_request t =
     (case t of LoadConnect req \<Rightarrow> Some (req_dataset req)
              | LoadPredict _ req \<Rightarrow> Some (req_dataset req) | _ \<Rightarrow> None)"

text \<open>
  The rejection a pending task can receive, and what the \<^verbatim>\<open>catch\<close> and
  \<^verbatim>\<open>finally\<close> blocks of its function leave behind: the status text and the flags,
  as a relation between the state before and after the rejection.
\<close>

definition rejection_of :: "nat \<Rightarrow> task \<Rightarrow> event" where
  "rejection_of i t = (if is_connecting t then ConnectRejected i else PredictRejected i)"

definition failure_outcome :: "revision \<Rightarrow> task \<Rightarrow> session \<Rightarrow> session \<Rightarrow> bool" where
  "failure_outcome v t s s' =
     (case t of
        SearchConnect _ _ \<Rightarrow> status s' = ''Search Failed'' \<and> \<not> isSearching s'
      | SearchPredict _ _ _ \<Rightarrow> status s' = ''Search Failed'' \<and> \<not> isSearching s'
      | LoadConnect _ \<Rightarrow> status s' = ''Sync Failed'' \<and> \<not> isLoading s'
      | LoadPredict _ _ \<Rightarrow> status s' = ''Sync Failed'' \<and> \<not> isLoading s'
      | LoadExamplesConnect \<Rightarrow>
          status s' = status s \<and> \<not> isExamplesLoading s' \<and> \<not> isLoading s'
      | LoadExamplesPredict _ \<Rightarrow>
          (case v of
             PageTsx \<Rightarrow> status s' = ''Sync Failed'' \<and> \<not> isLoading s'
           | Part000 \<Rightarrow> status s' = status s \<and> \<not> isExamplesLoading s' \<and> \<not> isLoading s')
      | RefreshConnect \<Rightarrow> status s' = status s \<and> \<not> isExamplesLoading s'
      | RefreshPredict _ \<Rightarrow> status s' = status s \<and> \<not> isExamplesLoading s'
      | Finished \<Rightarrow> False)"

text \<open>Concrete images and event sequences for the examples below.\<close>

definition ref_image :: "string \<Rightarrow> GradioImage" where
  "ref_image u = \<lparr> image = None, url = Some u, path = None, caption = None \<rparr>"

definition race_searches :: "event list" where
  "race_searches =
     [HandleSearch (ImageRef (ref_image ''a.png'')), HandleSearch (ImageRef (ref_image ''b.png'')),
      ConnectResolved 0 1, ConnectResolved 1 2,
      PredictResolved 1 (SearchResponse [ref_image ''near_b.png''] ''Found neighbours of b''),
      PredictResolved 0 (SearchResponse [ref_image ''near_a.png''] ''Found neighbours of a'')]"

definition race_loads :: "event list" where
  "race_loads =
     [Mount, SetDataset ''CUB'', ConnectResolved 0 1, ConnectResolved 1 2,
      PredictResolved 1 (LoadResourcesResponse ''CUB ready'' (Some ''Precision@1: 50.000%'')),
      PredictResolved 0 (LoadResourcesResponse ''Cars196 ready'' (Some ''Precision@1: 87.350%''))]"


definition retry_after_failure :: "event list" where
  "retry_after_failure =
     [HandleSearch (Binary ''blob:1''), ConnectRejected 0,
      HandleSearch (Binary ''blob:2''), ConnectResolved 1 4]"

text \<open>
  A session with accepted state and calls in flight. \<open>accepted_events\<close> loads
  \<^verbatim>\<open>Cars196\<close>, fetches one example and completes one search; \<open>busy_events\<close> then
  starts an upload search, a load for \<^verbatim>\<open>CUB\<close> and, in \<^verbatim>\<open>part_000\<close>, an
  example refresh, and leaves all of them pending. In \<open>fetching_examples\<close> the load for
  \<^verbatim>\<open>CUB\<close> has received its metrics and waits for its examples.
\<close>

definition accepted_events :: "event list" where
  "accepted_events =
     [Mount, ConnectResolved 0 1,
      PredictResolved 0 (LoadResourcesResponse ''Cars196 ready'' (Some ''Precision@1: 87.350%'')),
      PredictResolved 0 (RefreshExamplesResponse (Some [ref_image ''ex.png''])),
      HandleSearch (ImageRef (ref_image ''ex.png'')),
      PredictResolved 1 (SearchResponse [ref_image ''near.png''] ''Found'')]"

definition busy_events :: "revision \<Rightarrow> event list" where
  "busy_events v =
     accepted_events @ [HandleSearch (Binary ''blob:1''), SetDataset ''CUB'']
       @ (case v of PageTsx \<Rightarrow> [] | Part000 \<Rightarrow> [ClickRefresh])"

definition busy :: "revision \<Rightarrow> session" where
  "busy v = the (run v init (busy_events v))"

definition fetching_examples :: "revision \<Rightarrow> session" where
  "fetching_examples v =
     the (run v init
       (busy_events v @
         [PredictResolved 3 (LoadResourcesResponse ''CUB ready'' (Some ''Precision@1: 50.000%''))]))"

section \<open>Properties of the utilities\<close>

subsection \<open>\<^verbatim>\<open>getImageUrl\<close>\<close>

text \<open>
  C10. For every image record, the absent one included, \<^verbatim>\<open>getImageUrl\<close> returns a
  string: the empty string for the absent record, and otherwise the first value that is
  present and not empty among the nested \<^verbatim>\<open>image.url\<close>, the nested
  \<^verbatim>\<open>image.path\<close>, the top-level \<^verbatim>\<open>url\<close> and the top-level \<^verbatim>\<open>path\<close>, in
  this order; the empty string when there is none.
\<close>

theorem getImageUrl_first_present:
  "getImageUrl None = [] \<and>
   getImageUrl (Some it) =
     (case find truthy [Option.bind (image it) data_url, Option.bind (image it) data_path,
                        url it, path it] of
        Some (Some u) \<Rightarrow> u
      | _ \<Rightarrow> [])"
  by (auto simp: getImageUrl_def js_or_def js_or_str_def truthy_def split: option.splits)

subsection \<open>\<^verbatim>\<open>parseCaption\<close>\<close>

lemma split_nl_no_newline: "CHR 0x0A \<notin> set s \<Longrightarrow> split_nl s = [s]"
  by (induction s) auto

lemma split_nl_append:
  "CHR 0x0A \<notin> set s \<Longrightarrow> split_nl (s @ CHR 0x0A # t) = s # split_nl t"
  by (induction s) auto

lemma replace_first_prefix: "replace_first p (p @ x) = x"
proof (cases "p @ x")
  case Nil
  then show ?thesis by simp
next
  case (Cons a l)
  have "take (length p) (a # l) = p" "drop (length p) (a # l) = x"
    using Cons by (metis append_eq_conv_conj)+
  then show ?thesis using Cons by simp
qed

lemma replace_first_absent:
  "\<forall>i \<le> length s. take (length p) (drop i s) \<noteq> p \<Longrightarrow> replace_first p s = s"
proof (induction s)
  case Nil
  then show ?case by simp
next
  case (Cons c cs)
  have "take (length p) (c # cs) \<noteq> p"
    using Cons.prems by (metis drop0 le0)
  moreover have "\<forall>i \<le> length cs. take (length p) (drop i cs) \<noteq> p"
  proof (intro allI impI)
    fix i assume "i \<le> length cs"
    then have "Suc i \<le> length (c # cs)" by simp
    then have "take (length p) (drop (Suc i) (c # cs)) \<noteq> p"
      using Cons.prems by blast
    then show "take (length p) (drop i cs) \<noteq> p" by simp
  qed
  ultimately show ?case using Cons.IH by simp
qed

lemma replace_first_not_occurs: "\<not> occurs p s \<Longrightarrow> replace_first p s = s"
  by (rule replace_first_absent) (auto simp: occurs_def list_ex_iff)

lemma parseCaption_one:
  assumes "CHR 0x0A \<notin> set seg1" "seg1 \<noteq> []"
  shows "parseCaption (Some seg1) = (caption_label seg1, ''0.000'')"
  using assms
  by (simp add: parseCaption_def truthy_def split_nl_no_newline at_index_def caption_label_def
        js_or_str_def)

lemma parseCaption_two:
  assumes "CHR 0x0A \<notin> set seg1" "CHR 0x0A \<notin> set seg2"
  shows "parseCaption (Some (seg1 @ CHR 0x0A # seg2)) = (caption_label seg1, caption_sim seg2)"
  using assms
  by (simp add: parseCaption_def truthy_def split_nl_append split_nl_no_newline at_index_def
        caption_label_def caption_sim_def)

lemma parseCaption_more:
  assumes "CHR 0x0A \<notin> set seg1" "CHR 0x0A \<notin> set seg2"
  shows "parseCaption (Some (seg1 @ CHR 0x0A # seg2 @ CHR 0x0A # tl3))
           = (caption_label seg1, caption_sim seg2)"
  using assms
  by (simp add: parseCaption_def truthy_def split_nl_append at_index_def
        caption_label_def caption_sim_def)

lemma caption_label_Class:
  assumes "x \<noteq> []" "\<not> occurs ''Label: '' x"
  shows "caption_label (''Class: '' @ x) = x"
proof -
  have "replace_first ''Class: '' (''Class: '' @ x) = x"
    by (rule replace_first_prefix)
  moreover have "replace_first ''Label: '' x = x"
    using assms(2) by (rule replace_first_not_occurs)
  ultimately have "caption_label (''Class: '' @ x) = js_or_str (Some x) ''Unknown''"
    by (simp only: caption_label_def)
  then show ?thesis using assms(1) by (simp add: js_or_str_def)
qed

lemma caption_label_Label:
  assumes "x \<noteq> []" "\<not> occurs ''Class: '' (''Label: '' @ x)"
  shows "caption_label (''Label: '' @ x) = x"
proof -
  have "replace_first ''Class: '' (''Label: '' @ x) = ''Label: '' @ x"
    using assms(2) by (rule replace_first_not_occurs)
  moreover have "replace_first ''Label: '' (''Label: '' @ x) = x"
    by (rule replace_first_prefix)
  ultimately have "caption_label (''Label: '' @ x) = js_or_str (Some x) ''Unknown''"
    by (simp only: caption_label_def)
  then show ?thesis using assms(1) by (simp add: js_or_str_def)
qed

lemma caption_sim_Sim: "y \<noteq> [] \<Longrightarrow> caption_sim (''Sim: '' @ y) = y"
  unfolding caption_sim_def
  by (simp only: replace_first_prefix) (simp add: js_or_str_def)

text \<open>
  C5, as amended. \<^verbatim>\<open>parseCaption\<close> returns a pair for every input. For an absent
  or empty caption it is \<^verbatim>\<open>{"Unknown", "0.000"}\<close>. Otherwise the label is made
  from segment 1 and the similarity from segment 2 (\<^verbatim>\<open>"0.000"\<close> when there is no
  second segment); segments after the second are ignored. The label is segment 1 with the
  first occurrence of \<^verbatim>\<open>"Class: "\<close> removed and then the first occurrence of
  \<^verbatim>\<open>"Label: "\<close> removed, wherever they stand, and \<^verbatim>\<open>"Unknown"\<close> when nothing
  is left; the similarity is segment 2 with the first occurrence of \<^verbatim>\<open>"Sim: "\<close>
  removed, and \<^verbatim>\<open>"0.000"\<close> when nothing is left. When segment 1 is one of the two
  prefixes followed by a non-empty text in which the other marker does not occur, the
  label is that text; when segment 2 is \<^verbatim>\<open>"Sim: "\<close> followed by a non-empty text,
  the similarity is that text.
\<close>

theorem parseCaption_by_segments:
  "parseCaption None = (''Unknown'', ''0.000'') \<and>
   parseCaption (Some []) = (''Unknown'', ''0.000'') \<and>
   (CHR 0x0A \<notin> set seg1 \<and> CHR 0x0A \<notin> set seg2 \<longrightarrow>
      (seg1 \<noteq> [] \<longrightarrow> parseCaption (Some seg1) = (caption_label seg1, ''0.000'')) \<and>
      parseCaption (Some (seg1 @ CHR 0x0A # seg2)) = (caption_label seg1, caption_sim seg2) \<and>
      parseCaption (Some (seg1 @ CHR 0x0A # seg2 @ CHR 0x0A # tl3))
        = (caption_label seg1, caption_sim seg2)) \<and>
   (x \<noteq> [] \<and> \<not> occurs ''Label: '' x \<longrightarrow> caption_label (''Class: '' @ x) = x) \<and>
   (x \<noteq> [] \<and> \<not> occurs ''Class: '' (''Label: '' @ x) \<longrightarrow> caption_label (''Label: '' @ x) = x) \<and>
   (y \<noteq> [] \<longrightarrow> caption_sim (''Sim: '' @ y) = y)"
  using parseCaption_one parseCaption_two parseCaption_more caption_label_Class
    caption_label_Label caption_sim_Sim
  by (simp add: parseCaption_def truthy_def)

text \<open>
  The theorem at the caption \<^verbatim>\<open>"Class: Sedan\nSim: 0.912"\<close> of the
  specification's example, and at its first segment alone.
\<close>

theorem parseCaption_by_segments_witness:
  "CHR 0x0A \<notin> set ''Class: Sedan'' \<and> CHR 0x0A \<notin> set ''Sim: 0.912'' \<and> ''Class: Sedan'' \<noteq> [] \<and>
   ''Sedan'' \<noteq> [] \<and> \<not> occurs ''Label: '' ''Sedan'' \<and> ''0.912'' \<noteq> [] \<and>
   \<not> occurs ''Class: '' ''Label: Sedan'' \<and>
   parseCaption (Some ''Class: Sedan'') = (''Sedan'', ''0.000'') \<and>
   parseCaption (Some (''Class: Sedan'' @ CHR 0x0A # ''Sim: 0.912'')) = (''Sedan'', ''0.912'') \<and>
   caption_label ''Label: Sedan'' = ''Sedan''"
  using parseCaption_by_segments [of "''Class: Sedan''" "''Sim: 0.912''" "[]" "''Sedan''" "''0.912''"]
  by (simp add: occurs_def)

text \<open>
  C5 as stated fails where a marker is not a prefix: the code removes \<^verbatim>\<open>"Class: "\<close>
  and \<^verbatim>\<open>"Sim: "\<close> from the middle of a segment, the decoder of the specification
  leaves such a segment as it is.
\<close>

theorem parseCaption_counterexample:
  "parseCaption (Some (''Top Class: Sedan'' @ CHR 0x0A # ''Cosine Sim: 0.912''))
     = (''Top Sedan'', ''Cosine 0.912'') \<and>
   decodeCaption_spec (Some (''Top Class: Sedan'' @ CHR 0x0A # ''Cosine Sim: 0.912''))
     = (''Top Class: Sedan'', ''Cosine Sim: 0.912'') \<and>
   parseCaption (Some (''Top Class: Sedan'' @ CHR 0x0A # ''Cosine Sim: 0.912''))
     \<noteq> decodeCaption_spec (Some (''Top Class: Sedan'' @ CHR 0x0A # ''Cosine Sim: 0.912''))"
  by (simp add: parseCaption_def decodeCaption_spec_def truthy_def at_index_def js_or_str_def
        strip_prefix_def)

subsection \<open>\<^verbatim>\<open>parseStats\<close>\<close>

lemma backtrack_Some:
  "backtrack n rest suffix = Some cap \<Longrightarrow>
     \<exists>k. 0 < k \<and> k \<le> n \<and> cap = take k rest \<and> take (length suffix) (drop k rest) = suffix \<and>
         (\<forall>j. k < j \<and> j \<le> n \<longrightarrow> take (length suffix) (drop j rest) \<noteq> suffix)"
proof (induction n)
  case 0
  then show ?case by simp
next
  case (Suc n)
  show ?case
  proof (cases "take (length suffix) (drop (Suc n) rest) = suffix")
    case True
    then have "cap = take (Suc n) rest" using Suc.prems by simp
    with True show ?thesis by (intro exI[of _ "Suc n"]) auto
  next
    case False
    then have "backtrack n rest suffix = Some cap" using Suc.prems by simp
    from Suc.IH[OF this] obtain k where k: "0 < k" "k \<le> n" "cap = take k rest"
      "take (length suffix) (drop k rest) = suffix"
      "\<forall>j. k < j \<and> j \<le> n \<longrightarrow> take (length suffix) (drop j rest) \<noteq> suffix" by blast
    have "\<forall>j. k < j \<and> j \<le> Suc n \<longrightarrow> take (length suffix) (drop j rest) \<noteq> suffix"
      using k(5) False by (metis le_SucE)
    with k show ?thesis by (intro exI[of _ k]) auto
  qed
qed

lemma backtrack_None:
  "backtrack n rest suffix = None \<Longrightarrow> 0 < k \<Longrightarrow> k \<le> n \<Longrightarrow>
     take (length suffix) (drop k rest) \<noteq> suffix"
proof (induction n)
  case 0
  then show ?case by simp
next
  case (Suc n)
  then show ?case by (cases "k = Suc n") (auto split: if_splits)
qed


lemma takeWhile_prefix_length:
  "\<forall>c \<in> set cap. cls c \<Longrightarrow> length cap \<le> length (takeWhile cls (cap @ xs))"
  by (induction cap) auto

lemma take_takeWhile_all:
  "k \<le> length (takeWhile cls xs) \<Longrightarrow> \<forall>c \<in> set (take k xs). cls c"
proof (induction xs arbitrary: k)
  case Nil
  then show ?case by simp
next
  case (Cons x xs)
  then show ?case by (cases k) (auto split: if_splits)
qed

lemma occurrence_here_facts:
  assumes "is_occurrence label cls suffix s [] cap"
  shows "take (length label) s = label"
    and "cap = take (length cap) (drop (length label) s)"
    and "0 < length cap"
    and "length cap \<le> length (takeWhile cls (drop (length label) s))"
    and "take (length suffix) (drop (length cap) (drop (length label) s)) = suffix"
proof -
  from assms obtain rest where s: "s = label @ cap @ suffix @ rest" and ne: "cap \<noteq> []"
    and cl: "\<forall>c \<in> set cap. cls c"
    by (auto simp: is_occurrence_def)
  show "take (length label) s = label" using s by simp
  show "cap = take (length cap) (drop (length label) s)" using s by simp
  show "0 < length cap" using ne by simp
  have "drop (length label) s = cap @ (suffix @ rest)" using s by simp
  then show "length cap \<le> length (takeWhile cls (drop (length label) s))"
    using takeWhile_prefix_length[OF cl] by simp
  show "take (length suffix) (drop (length cap) (drop (length label) s)) = suffix"
    using s by simp
qed

lemma match_here_None:
  assumes "match_here label cls suffix s = None"
  shows "\<not> is_occurrence label cls suffix s [] cap"
proof
  assume occ: "is_occurrence label cls suffix s [] cap"
  note f = occurrence_here_facts[OF occ]
  from assms f(1)
  have "backtrack (length (takeWhile cls (drop (length label) s))) (drop (length label) s) suffix
          = None"
    by (simp add: match_here_def Let_def)
  from backtrack_None[OF this f(3) f(4)] f(5) show False by simp
qed

lemma match_here_Some:
  assumes "match_here label cls suffix s = Some cap"
  shows "is_occurrence label cls suffix s [] cap"
    and "is_occurrence label cls suffix s [] cap' \<Longrightarrow> length cap' \<le> length cap"
proof -
  let ?rest = "drop (length label) s"
  let ?n = "length (takeWhile cls ?rest)"
  from assms have lab: "take (length label) s = label"
    and bt: "backtrack ?n ?rest suffix = Some cap"
    by (auto simp: match_here_def Let_def split: if_splits)
  from backtrack_Some[OF bt] obtain k where k: "0 < k" "k \<le> ?n" "cap = take k ?rest"
    "take (length suffix) (drop k ?rest) = suffix"
    "\<forall>j. k < j \<and> j \<le> ?n \<longrightarrow> take (length suffix) (drop j ?rest) \<noteq> suffix" by blast
  have nle: "?n \<le> length ?rest" by (rule length_takeWhile_le)
  have lencap: "length cap = k" using k(2,3) nle by simp
  have cls: "\<forall>c \<in> set cap. cls c" using take_takeWhile_all[OF k(2)] k(3) by simp
  have e1: "s = label @ ?rest" using lab by (metis append_take_drop_id)
  have e2: "?rest = cap @ drop k ?rest" using k(3) by (metis append_take_drop_id)
  have e3: "drop k ?rest = suffix @ drop (length suffix) (drop k ?rest)"
    using k(4) by (metis append_take_drop_id)
  have "s = label @ cap @ suffix @ drop (length suffix) (drop k ?rest)"
    using e1 e2 e3 by metis
  moreover have "cap \<noteq> []" using lencap k(1) by auto
  ultimately show occ: "is_occurrence label cls suffix s [] cap"
    using cls unfolding is_occurrence_def by (intro exI[of _ "drop (length suffix) (drop k ?rest)"]) simp
  assume occ': "is_occurrence label cls suffix s [] cap'"
  note f = occurrence_here_facts[OF occ']
  show "length cap' \<le> length cap"
  proof (rule ccontr)
    assume "\<not> length cap' \<le> length cap"
    then have "k < length cap'" using lencap by simp
    with k(5) f(4) have "take (length suffix) (drop (length cap') ?rest) \<noteq> suffix" by blast
    with f(5) show False by simp
  qed
qed

lemma no_occurrence_Nil: "\<not> is_occurrence label cls suffix [] pre cap"
  by (auto simp: is_occurrence_def)

lemma occurrence_Cons_cases:
  "is_occurrence label cls suffix (c # cs) pre cap \<Longrightarrow>
     pre = [] \<or> (\<exists>p. pre = c # p \<and> is_occurrence label cls suffix cs p cap)"
  by (cases pre) (auto simp: is_occurrence_def)

lemma occurrence_ConsI:
  "is_occurrence label cls suffix cs p cap \<Longrightarrow> is_occurrence label cls suffix (c # cs) (c # p) cap"
  by (auto simp: is_occurrence_def)

lemma regex_capture_None:
  "regex_capture label cls suffix s = None \<Longrightarrow> \<not> pattern_present label cls suffix s"
proof (induction s)
  case Nil
  then show ?case by (simp add: pattern_present_def no_occurrence_Nil)
next
  case (Cons c cs)
  from Cons.prems have mh: "match_here label cls suffix (c # cs) = None"
    and rc: "regex_capture label cls suffix cs = None"
    by (auto split: option.splits)
  from Cons.IH[OF rc] have "\<And>p cap. \<not> is_occurrence label cls suffix cs p cap"
    by (auto simp: pattern_present_def)
  with match_here_None[OF mh] show ?case
    unfolding pattern_present_def by (blast dest: occurrence_Cons_cases)
qed

lemma regex_capture_Some:
  "regex_capture label cls suffix s = Some cap \<Longrightarrow> first_capture label cls suffix s cap"
proof (induction s)
  case Nil
  then have "match_here label cls suffix [] = Some cap" by simp
  from match_here_Some(1)[OF this] show ?case by (simp add: no_occurrence_Nil)
next
  case (Cons c cs)
  show ?case
  proof (cases "match_here label cls suffix (c # cs)")
    case (Some cap0)
    with Cons.prems have "cap0 = cap" by simp
    with Some have mh: "match_here label cls suffix (c # cs) = Some cap" by simp
    show ?thesis
      unfolding first_capture_def
    proof (intro exI[of _ "[]"] conjI allI impI)
      show "is_occurrence label cls suffix (c # cs) [] cap" by (rule match_here_Some(1)[OF mh])
    next
      fix pre' cap'
      assume o: "is_occurrence label cls suffix (c # cs) pre' cap'"
      show "length [] < length pre' \<or> (length [] = length pre' \<and> length cap' \<le> length cap)"
      proof (cases pre')
        case Nil
        with o match_here_Some(2)[OF mh] show ?thesis by simp
      next
        case (Cons a l)
        then show ?thesis by simp
      qed
    qed
  next
    case None
    with Cons.prems have rc: "regex_capture label cls suffix cs = Some cap" by simp
    from Cons.IH[OF rc] obtain pre where pre: "is_occurrence label cls suffix cs pre cap"
      and mn: "\<forall>pre' cap'. is_occurrence label cls suffix cs pre' cap' \<longrightarrow>
           length pre < length pre' \<or> (length pre = length pre' \<and> length cap' \<le> length cap)"
      unfolding first_capture_def by blast
    show ?thesis
      unfolding first_capture_def
    proof (intro exI[of _ "c # pre"] conjI allI impI)
      show "is_occurrence label cls suffix (c # cs) (c # pre) cap"
        using pre by (rule occurrence_ConsI)
    next
      fix pre' cap'
      assume o: "is_occurrence label cls suffix (c # cs) pre' cap'"
      then obtain p where p: "pre' = c # p" "is_occurrence label cls suffix cs p cap'"
        using match_here_None[OF None] by (blast dest: occurrence_Cons_cases)
      with mn show "length (c # pre) < length pre' \<or>
          (length (c # pre) = length pre' \<and> length cap' \<le> length cap)"
        by auto
    qed
  qed
qed

lemma first_capture_present:
  "first_capture label cls suffix s cap \<Longrightarrow> pattern_present label cls suffix s"
  by (auto simp: first_capture_def pattern_present_def)

lemma regex_capture_None_iff:
  "regex_capture label cls suffix s = None \<longleftrightarrow> \<not> pattern_present label cls suffix s"
  using regex_capture_None regex_capture_Some first_capture_present
  by (cases "regex_capture label cls suffix s") blast+


lemma first_capture_not_empty: "first_capture label cls suffix s cap \<Longrightarrow> cap \<noteq> []"
  by (auto simp: first_capture_def is_occurrence_def)

lemma decoded_field_capture:
  assumes "\<And>cap. cap \<noteq> [] \<Longrightarrow> f (Some cap) = conv cap" and "f None = dflt"
  shows "decoded_field label cls suffix raw dflt conv (f (regex_capture label cls suffix raw))"
proof (cases "regex_capture label cls suffix raw")
  case None
  then show ?thesis
    using assms(2) regex_capture_None by (simp add: decoded_field_def)
next
  case (Some cap)
  from regex_capture_Some[OF Some] have fc: "first_capture label cls suffix raw cap" .
  then have "f (Some cap) = conv cap" using assms(1) first_capture_not_empty by blast
  with fc Some show ?thesis
    using first_capture_present by (auto simp: decoded_field_def)
qed

lemma getNum_decoded:
  "decoded_field label is_digit_or_dot ''%'' raw (Num 0) parseFloat (getNum raw label)"
proof -
  have "getNum raw label =
          (\<lambda>m. case m of Some c \<Rightarrow> parseFloat c | None \<Rightarrow> Num 0)
            (regex_capture label is_digit_or_dot ''%'' raw)"
    by (simp add: getNum_def)
  then show ?thesis
    using decoded_field_capture[of "\<lambda>m. case m of Some c \<Rightarrow> parseFloat c | None \<Rightarrow> Num 0"
        parseFloat "Num 0" label is_digit_or_dot "''%''" raw]
    by simp
qed

lemma parseInt_zero: "parseInt ''0'' = Num 0"
  by (simp add: parseInt_def is_digit_def digits_val_def digit_of_def)

lemma embeddings_decoded:
  "decoded_field label is_digit [] raw ''0'' (\<lambda>cap. cap)
     (js_or_str (regex_capture label is_digit [] raw) ''0'')"
  using decoded_field_capture[of "\<lambda>m. js_or_str m ''0''" "\<lambda>cap. cap" "''0''" label is_digit "[]" raw]
  by (simp add: js_or_str_def)

lemma dim_decoded:
  "decoded_field label is_digit [] raw (Num 0) parseInt
     (parseInt (js_or_str (regex_capture label is_digit [] raw) ''0''))"
  using decoded_field_capture[of "\<lambda>m. parseInt (js_or_str m ''0'')" parseInt "Num 0" label
      is_digit "[]" raw] parseInt_zero
  by (simp add: js_or_str_def)

text \<open>
  C4, as amended. For every text \<^verbatim>\<open>parseStats\<close> returns a structure, never
  \<^verbatim>\<open>null\<close>, and each of the eight fields depends on its own labelled pattern only:
  when the pattern is nowhere in the text the field is \<open>0\<close> (\<^verbatim>\<open>"0"\<close> for the
  textual field); when it is, the field is the conversion of the run captured at the
  leftmost occurrence, \<^verbatim>\<open>parseFloat\<close> for the six percentages, the run itself for
  the embeddings and \<^verbatim>\<open>parseInt\<close> for the dimension. The conversion is what the
  built-in makes of the run: \<^verbatim>\<open>parseFloat\<close> reads its leading numeral and is
  \<^verbatim>\<open>NaN\<close> when the run begins with none.
\<close>

theorem parseStats_fields_independent:
  "\<exists>st. parseStats raw = Some st \<and>
     decoded_field ''Precision@1: '' is_digit_or_dot ''%'' raw (Num 0) parseFloat (precision st) \<and>
     decoded_field ''MAP@R: '' is_digit_or_dot ''%'' raw (Num 0) parseFloat (mapR st) \<and>
     decoded_field ''R@1: '' is_digit_or_dot ''%'' raw (Num 0) parseFloat (r1 (recall st)) \<and>
     decoded_field ''R@5: '' is_digit_or_dot ''%'' raw (Num 0) parseFloat (r5 (recall st)) \<and>
     decoded_field ''R@10: '' is_digit_or_dot ''%'' raw (Num 0) parseFloat (r10 (recall st)) \<and>
     decoded_field ''R@100: '' is_digit_or_dot ''%'' raw (Num 0) parseFloat (r100 (recall st)) \<and>
     decoded_field ''Total embeddings: '' is_digit [] raw ''0'' (\<lambda>cap. cap) (embeddings st) \<and>
     decoded_field ''Embedding dimension: '' is_digit [] raw (Num 0) parseInt (dim st)"
  unfolding parseStats_def
  by (simp add: getNum_decoded embeddings_decoded dim_decoded)

lemma regex_eval1:
  "regex_capture ''MAP@R: '' is_digit_or_dot ''%'' ''Precision@1: 87.350% R@1: 91.200%'' = None"
  by code_simp
lemma regex_eval2:
  "regex_capture ''Precision@1: '' is_digit_or_dot ''%'' ''Precision@1: 87.350% R@1: 91.200%'' = Some ''87.350''"
  by code_simp

text \<open>
  The theorem at the text \<^verbatim>\<open>"Precision@1: 87.350% R@1: 91.200%"\<close>: the pattern of
  \<^verbatim>\<open>MAP@R\<close> is absent and that of \<^verbatim>\<open>Precision@1\<close> is present.
\<close>

theorem parseStats_fields_independent_witness:
  "\<not> pattern_present ''MAP@R: '' is_digit_or_dot ''%'' ''Precision@1: 87.350% R@1: 91.200%'' \<and>
   pattern_present ''Precision@1: '' is_digit_or_dot ''%'' ''Precision@1: 87.350% R@1: 91.200%'' \<and>
   (\<exists>st. parseStats ''Precision@1: 87.350% R@1: 91.200%'' = Some st \<and>
      mapR st = Num 0 \<and>
      (\<exists>cap. first_capture ''Precision@1: '' is_digit_or_dot ''%''
                ''Precision@1: 87.350% R@1: 91.200%'' cap \<and> precision st = parseFloat cap))"
proof -
  let ?raw = "''Precision@1: 87.350% R@1: 91.200%''"
  have absent: "\<not> pattern_present ''MAP@R: '' is_digit_or_dot ''%'' ?raw"
    by (rule regex_capture_None) (rule regex_eval1)
  have present: "pattern_present ''Precision@1: '' is_digit_or_dot ''%'' ?raw"
    by (rule first_capture_present, rule regex_capture_Some) (rule regex_eval2)
  from parseStats_fields_independent[of ?raw] obtain st where st: "parseStats ?raw = Some st"
    and f1: "decoded_field ''Precision@1: '' is_digit_or_dot ''%'' ?raw (Num 0) parseFloat (precision st)"
    and f2: "decoded_field ''MAP@R: '' is_digit_or_dot ''%'' ?raw (Num 0) parseFloat (mapR st)"
    by blast
  from f2 absent have "mapR st = Num 0" unfolding decoded_field_def by blast
  moreover from f1 present have "\<exists>cap. first_capture ''Precision@1: '' is_digit_or_dot ''%'' ?raw cap \<and>
      precision st = parseFloat cap" unfolding decoded_field_def by blast
  ultimately show ?thesis using absent present st by blast
qed

lemma parseStats_example:
  "precision (the (parseStats ''Precision@1: 87.350% R@1: 91.200%'')) = Num (8735 / 100)"
  "r1 (recall (the (parseStats ''Precision@1: 87.350% R@1: 91.200%''))) = Num (912 / 10)"
  by code_simp+

lemma parseFloat_examples:
  "parseFloat ''87.350'' = Num (8735 / 100)"
  "parseFloat ''.'' = NaN"
  "parseFloat ''1.2.3'' = Num (12 / 10)"
  by code_simp+

text \<open>
  C4 as stated fails on a malformed field that the expression still matches: in
  \<^verbatim>\<open>"Precision@1: .%"\<close> the class \<^verbatim>\<open>[\d.]+\<close> captures the lone dot, and the
  field is \<^verbatim>\<open>NaN\<close>, not \<open>0\<close>.
\<close>

theorem parseStats_counterexample:
  "precision (the (parseStats ''Precision@1: .%'')) = NaN \<and>
   precision (the (parseStats ''Precision@1: .%'')) \<noteq> Num 0"
  by code_simp

section \<open>Properties of the session controller\<close>

subsection \<open>How one event changes each cell\<close>

lemmas resume_defs =
  resume_def connect_outcome_def predict_outcome_def
  handleSearch_connect_settled_def handleSearch_predict_settled_def
  refreshExamples_connect_settled_def refreshExamples_predict_settled_def
  loadResources_connect_settled_def loadResources_predict_settled_def
  loadResources_examples_connect_settled_def loadResources_examples_settled_def
  refreshExamples_begin_def getGradioClient_def getGradioClient_settled_def
  search_failed_def sync_failed_def

lemmas trigger_defs =
  handleSearch_def loadResources_def refreshExamples_def refreshExamples_begin_def
  getGradioClient_def spawn_def

lemma resume_results:
  "resume v t e s = Some (s1, t') \<Longrightarrow>
     results s1 = (case e of PredictResolved _ (SearchResponse imgs _) \<Rightarrow> imgs | _ \<Rightarrow> results s)"
  by (auto simp: resume_defs Let_def
      split: task.splits event.splits option.splits response.splits revision.splits)

lemma step_results:
  "step v s e = Some s' \<Longrightarrow>
     results s' = (case e of PredictResolved _ (SearchResponse imgs _) \<Rightarrow> imgs | _ \<Rightarrow> results s)"
  by (cases e)
     (auto simp: step_def settle_def trigger_defs Let_def dest!: resume_results
      split: if_splits option.splits revision.splits)

lemma resume_stats:
  "resume v t e s = Some (s1, t') \<Longrightarrow>
     stats s1 = (case e of PredictResolved _ (LoadResourcesResponse _ raw) \<Rightarrow> parseStats_payload raw
                         | _ \<Rightarrow> stats s)"
  by (auto simp: resume_defs Let_def
      split: task.splits event.splits option.splits response.splits revision.splits)

lemma step_stats:
  "step v s e = Some s' \<Longrightarrow>
     stats s' = (case e of PredictResolved _ (LoadResourcesResponse _ raw) \<Rightarrow> parseStats_payload raw
                         | _ \<Rightarrow> stats s)"
  by (cases e)
     (auto simp: step_def settle_def trigger_defs Let_def dest!: resume_stats
      split: if_splits option.splits revision.splits)

lemma resume_clientRef:
  "resume v t e s = Some (s1, t') \<Longrightarrow>
     clientRef s1 = (case e of ConnectResolved _ c \<Rightarrow> Some c | _ \<Rightarrow> clientRef s)"
  by (auto simp: resume_defs Let_def
      split: task.splits event.splits option.splits response.splits revision.splits)

lemma step_clientRef:
  "step v s e = Some s' \<Longrightarrow>
     clientRef s' = (case e of ConnectResolved _ c \<Rightarrow> Some c | _ \<Rightarrow> clientRef s)"
  by (cases e)
     (auto simp: step_def settle_def trigger_defs Let_def dest!: resume_clientRef
      split: if_splits option.splits revision.splits)

lemma resume_activeQuery: "resume v t e s = Some (s1, t') \<Longrightarrow> activeQuery s1 = activeQuery s"
  by (auto simp: resume_defs Let_def
      split: task.splits event.splits option.splits response.splits revision.splits)

lemma step_activeQuery:
  "step v s e = Some s' \<Longrightarrow>
     activeQuery s' = (case e of HandleSearch src \<Rightarrow> Some (previewUrl src) | _ \<Rightarrow> activeQuery s)"
  by (cases e)
     (auto simp: step_def settle_def trigger_defs Let_def dest!: resume_activeQuery
      split: if_splits option.splits revision.splits)

lemma filter_update_length:
  "i < length xs \<Longrightarrow> P (xs ! i) \<Longrightarrow> \<not> P y \<Longrightarrow>
     Suc (length (filter P (xs[i := y]))) = length (filter P xs)"
proof (induction xs arbitrary: i)
  case Nil
  then show ?case by simp
next
  case (Cons x xs)
  then show ?case by (cases i) auto
qed

lemma trigger_empty_ref:
  assumes "clientRef s = None" "calls_getter v e"
  shows "\<exists>s'. step v s e = Some s' \<and> inflight_connects s' = Suc (inflight_connects s) \<and>
           clientRef s' = None"
  using assms
  by (cases e)
     (auto simp: calls_getter_def step_def trigger_defs inflight_connects_def is_connecting_def
        Let_def)

lemma run_triggers_empty_ref:
  "clientRef s = None \<Longrightarrow> \<forall>e \<in> set evs. calls_getter v e \<Longrightarrow>
     \<exists>s'. run v s evs = Some s' \<and> inflight_connects s' = inflight_connects s + length evs \<and>
          clientRef s' = None"
proof (induction evs arbitrary: s)
  case Nil
  then show ?case by simp
next
  case (Cons e es)
  from trigger_empty_ref[of s v e] Cons.prems obtain s1 where
    s1: "step v s e = Some s1" "inflight_connects s1 = Suc (inflight_connects s)"
        "clientRef s1 = None" by auto
  from Cons.IH[OF s1(3)] Cons.prems(2) obtain s' where
    "run v s1 es = Some s'" "inflight_connects s' = inflight_connects s1 + length es"
    "clientRef s' = None" by auto
  with s1 show ?case by simp
qed

lemma trigger_memoized:
  assumes "clientRef s = Some c" "calls_getter v e"
  shows "\<exists>s'. step v s e = Some s' \<and> inflight_connects s' = inflight_connects s \<and>
           task_client (last (tasks s')) = Some c"
  using assms
  by (cases e)
     (auto simp: calls_getter_def step_def trigger_defs inflight_connects_def is_connecting_def
        task_client_def Let_def)

lemma connect_resolved_own:
  assumes "i < length (tasks s)" "is_connecting (tasks s ! i)"
  shows "\<exists>s'. step v s (ConnectResolved i c) = Some s' \<and> task_client (tasks s' ! i) = Some c \<and>
           clientRef s' = Some c"
  using assms
  by (cases "tasks s ! i")
     (auto simp: step_def settle_def resume_defs is_connecting_def task_client_def)

lemma connect_rejected_step:
  assumes "i < length (tasks s)" "is_connecting (tasks s ! i)"
  shows "\<exists>s'. step v s (ConnectRejected i) = Some s' \<and> clientRef s' = clientRef s \<and>
           tasks s' ! i = Finished \<and> Suc (inflight_connects s') = inflight_connects s"
proof -
  have nf: "\<not> is_connecting Finished" by (simp add: is_connecting_def)
  from assms obtain s1 where r: "resume v (tasks s ! i) (ConnectRejected i) s = Some (s1, Finished)"
    and t: "tasks s1 = tasks s" and c: "clientRef s1 = clientRef s"
    by (cases "tasks s ! i") (auto simp: resume_defs is_connecting_def)
  let ?s' = "s1\<lparr>tasks := (tasks s1)[i := Finished]\<rparr>"
  have "step v s (ConnectRejected i) = Some ?s'"
    using assms(1) r by (simp add: step_def settle_def)
  moreover have "Suc (inflight_connects ?s') = inflight_connects s"
    using filter_update_length[OF assms(1) assms(2) nf] t by (simp add: inflight_connects_def)
  ultimately show ?thesis using c t assms(1) by auto
qed

lemma rejection_step:
  assumes "i < length (tasks s)" "tasks s ! i \<noteq> Finished"
  shows "\<exists>s'. step v s (rejection_of i (tasks s ! i)) = Some s' \<and>
           results s' = results s \<and> stats s' = stats s \<and> examples s' = examples s \<and>
           failure_outcome v (tasks s ! i) s s'"
  using assms
  by (cases "tasks s ! i"; cases v)
     (auto simp: rejection_of_def is_connecting_def step_def settle_def resume_defs
        failure_outcome_def)

lemma handleSearch_step:
  "\<exists>s'. step v s (HandleSearch src) = Some s' \<and> activeQuery s' = Some (previewUrl src) \<and>
        is_search (last (tasks s')) \<and> length (tasks s') = Suc (length (tasks s))"
  by (auto simp: step_def trigger_defs is_search_def Let_def split: option.splits)

lemma search_resolved_step:
  assumes "i < length (tasks s)" "tasks s ! i = SearchPredict c inp k"
  shows "\<exists>s'. step v s (PredictResolved i (SearchResponse imgs st)) = Some s' \<and>
           results s' = imgs \<and> status s' = st \<and> \<not> isSearching s' \<and> tasks s' ! i = Finished"
  using assms by (auto simp: step_def settle_def resume_defs)

lemma load_resolved_step:
  assumes "i < length (tasks s)" "tasks s ! i = LoadPredict c req"
  shows "\<exists>s'. step v s (PredictResolved i (LoadResourcesResponse st raw)) = Some s' \<and>
           stats s' = parseStats_payload raw \<and> status s' = st"
  using assms by (cases v) (auto simp: step_def settle_def resume_defs split: option.splits)

lemma run_results:
  "run v s evs = Some s' \<Longrightarrow>
     results s' = (case last_search_response evs of None \<Rightarrow> results s | Some (imgs, st) \<Rightarrow> imgs)"
proof (induction evs arbitrary: s)
  case Nil
  then show ?case by simp
next
  case (Cons e es)
  from Cons.prems obtain s1 where s1: "step v s e = Some s1" and r: "run v s1 es = Some s'"
    by (auto split: option.splits)
  from Cons.IH[OF r] step_results[OF s1] show ?case
    by (auto split: option.splits event.splits response.splits)
qed

lemma run_stats:
  "run v s evs = Some s' \<Longrightarrow>
     stats s' = (case last_load_response evs of None \<Rightarrow> stats s | Some (st, raw) \<Rightarrow> parseStats_payload raw)"
proof (induction evs arbitrary: s)
  case Nil
  then show ?case by simp
next
  case (Cons e es)
  from Cons.prems obtain s1 where s1: "step v s e = Some s1" and r: "run v s1 es = Some s'"
    by (auto split: option.splits)
  from Cons.IH[OF r] step_stats[OF s1] show ?case
    by (auto split: option.splits event.splits response.splits)
qed

lemma run_clientRef:
  "run v s evs = Some s' \<Longrightarrow>
     clientRef s' = (case last_connect_resolved evs of None \<Rightarrow> clientRef s | Some c \<Rightarrow> Some c)"
proof (induction evs arbitrary: s)
  case Nil
  then show ?case by simp
next
  case (Cons e es)
  from Cons.prems obtain s1 where s1: "step v s e = Some s1" and r: "run v s1 es = Some s'"
    by (auto split: option.splits)
  from Cons.IH[OF r] step_clientRef[OF s1] show ?case
    by (auto split: option.splits event.splits)
qed

lemma run_activeQuery:
  "run v s evs = Some s' \<Longrightarrow>
     activeQuery s' =
       (case last_search_trigger evs of None \<Rightarrow> activeQuery s | Some src \<Rightarrow> Some (previewUrl src))"
proof (induction evs arbitrary: s)
  case Nil
  then show ?case by simp
next
  case (Cons e es)
  from Cons.prems obtain s1 where s1: "step v s e = Some s1" and r: "run v s1 es = Some s'"
    by (auto split: option.splits)
  from Cons.IH[OF r] step_activeQuery[OF s1] show ?case
    by (auto split: option.splits event.splits)
qed

subsection \<open>Overlapping searches\<close>

text \<open>
  C1, as amended. The code numbers no request and checks nothing when a response arrives:
  the response of every pending search is applied when it settles, to \<^verbatim>\<open>results\<close>
  and to \<^verbatim>\<open>status\<close>, and \<^verbatim>\<open>isSearching\<close> is cleared. After any sequence of
  events the displayed \<^verbatim>\<open>results\<close> are the data of the search response that
  settled last, whichever search was issued last (and the results of the start when no
  search has resolved). So when the response to request \<open>n\<close> settles after the response
  to request \<open>n+1\<close>, the final results are those of request \<open>n\<close>.
\<close>

theorem search_last_settled_wins:
  "(i < length (tasks s) \<and> tasks s ! i = SearchPredict c inp k \<longrightarrow>
      (\<exists>s'. step v s (PredictResolved i (SearchResponse imgs st)) = Some s' \<and>
            results s' = imgs \<and> status s' = st \<and> \<not> isSearching s')) \<and>
   (run v sa evs = Some sb \<longrightarrow>
      results sb = (case last_search_response evs of None \<Rightarrow> results sa
                                                     | Some (imgs', st') \<Rightarrow> imgs'))"
  using search_resolved_step[of i s c inp k v imgs st] run_results[of v sa evs sb]
  by blast

text \<open>
  The theorem on one pending search that resolves, and on two searches, for
  \<^verbatim>\<open>a.png\<close> and then for \<^verbatim>\<open>b.png\<close>, whose responses settle in the opposite
  order.
\<close>

theorem search_last_settled_wins_witness:
  "0 < length (tasks (spawn (SearchPredict 1 (RawBinary ''blob:1'') 10) init)) \<and>
   tasks (spawn (SearchPredict 1 (RawBinary ''blob:1'') 10) init) ! 0
     = SearchPredict 1 (RawBinary ''blob:1'') 10 \<and>
   (\<exists>s'. step Part000 (spawn (SearchPredict 1 (RawBinary ''blob:1'') 10) init)
           (PredictResolved 0 (SearchResponse [ref_image ''near.png''] ''Found'')) = Some s' \<and>
         results s' = [ref_image ''near.png''] \<and> status s' = ''Found'' \<and> \<not> isSearching s') \<and>
   run Part000 init race_searches \<noteq> None \<and>
   last_search_response race_searches
     = Some ([ref_image ''near_a.png''], ''Found neighbours of a'') \<and>
   results (the (run Part000 init race_searches)) = [ref_image ''near_a.png'']"
proof -
  let ?s = "spawn (SearchPredict 1 (RawBinary ''blob:1'') 10) init"
  have h1: "0 < length (tasks ?s)" by (simp add: spawn_def init_def)
  have h2: "tasks ?s ! 0 = SearchPredict 1 (RawBinary ''blob:1'') 10"
    by (simp add: spawn_def init_def)
  have ok: "run Part000 init race_searches = Some (the (run Part000 init race_searches))"
    by code_simp
  have l: "last_search_response race_searches
             = Some ([ref_image ''near_a.png''], ''Found neighbours of a'')"
    by code_simp
  have ne: "run Part000 init race_searches \<noteq> None"
    by code_simp
  note T = search_last_settled_wins[of 0 ?s 1 "RawBinary ''blob:1''" 10 Part000
      "[ref_image ''near.png'']" "''Found''" init race_searches
      "the (run Part000 init race_searches)"]
  from T h1 h2 have a: "\<exists>s'. step Part000 ?s
           (PredictResolved 0 (SearchResponse [ref_image ''near.png''] ''Found'')) = Some s' \<and>
         results s' = [ref_image ''near.png''] \<and> status s' = ''Found'' \<and> \<not> isSearching s'"
    by blast
  from T ok l have b: "results (the (run Part000 init race_searches)) = [ref_image ''near_a.png'']"
    by simp
  from a b h1 h2 ne l show ?thesis by blast
qed

text \<open>
  C1 as stated fails in both revisions: the search for \<^verbatim>\<open>a.png\<close> is issued first
  and settles last, and the final results are its response, not the response to the later
  search for \<^verbatim>\<open>b.png\<close>, while the preview shows \<^verbatim>\<open>b.png\<close>.
\<close>

theorem search_race_counterexample:
  "map_option results (run PageTsx init race_searches) = Some [ref_image ''near_a.png''] \<and>
   map_option results (run Part000 init race_searches) = Some [ref_image ''near_a.png''] \<and>
   map_option activeQuery (run Part000 init race_searches) = Some (Some ''b.png'') \<and>
   [ref_image ''near_a.png''] \<noteq> [ref_image ''near_b.png'']"
  by code_simp

subsection \<open>Overlapping resource loads\<close>

text \<open>
  C2, as amended. A resource load is not checked against the selected configuration when
  its response arrives: the response of every pending load is applied when it settles, to
  \<^verbatim>\<open>status\<close> and to \<^verbatim>\<open>stats\<close>. After any sequence of events the displayed
  \<^verbatim>\<open>stats\<close> are \<^verbatim>\<open>parseStats\<close> of the metrics text of the load response
  that settled last, whichever configuration is selected (and the metrics of the start
  when no load has resolved); they are \<^verbatim>\<open>null\<close> when that response carries no
  text there. So a response for a superseded configuration that settles after the
  response for the new one replaces the new configuration's metrics.
\<close>

theorem load_last_settled_wins:
  "(i < length (tasks s) \<and> tasks s ! i = LoadPredict c req \<longrightarrow>
      (\<exists>s'. step v s (PredictResolved i (LoadResourcesResponse st raw)) = Some s' \<and>
            stats s' = parseStats_payload raw \<and> status s' = st)) \<and>
   (run v sa evs = Some sb \<longrightarrow>
      stats sb = (case last_load_response evs of None \<Rightarrow> stats sa
                                                | Some (st', raw') \<Rightarrow> parseStats_payload raw'))"
  using load_resolved_step[of i s c req v st raw] run_stats[of v sa evs sb]
  by blast

text \<open>
  The theorem on one pending load that resolves, and on the load for \<^verbatim>\<open>Cars196\<close>
  started at the first render and the load for \<^verbatim>\<open>CUB\<close> started by the change of
  the dataset, settling in the opposite order.
\<close>

theorem load_last_settled_wins_witness:
  "0 < length (tasks (spawn (LoadPredict 1 (current_request init)) init)) \<and>
   tasks (spawn (LoadPredict 1 (current_request init)) init) ! 0
     = LoadPredict 1 (current_request init) \<and>
   (\<exists>s'. step Part000 (spawn (LoadPredict 1 (current_request init)) init)
           (PredictResolved 0 (LoadResourcesResponse ''Ready'' (Some ''R@1: 91.200%''))) = Some s' \<and>
         stats s' = parseStats_payload (Some ''R@1: 91.200%'') \<and> status s' = ''Ready'') \<and>
   run Part000 init race_loads \<noteq> None \<and>
   last_load_response race_loads = Some (''Cars196 ready'', Some ''Precision@1: 87.350%'') \<and>
   stats (the (run Part000 init race_loads)) = parseStats_payload (Some ''Precision@1: 87.350%'')"
proof -
  let ?s = "spawn (LoadPredict 1 (current_request init)) init"
  have h1: "0 < length (tasks ?s)" by (simp add: spawn_def init_def)
  have h2: "tasks ?s ! 0 = LoadPredict 1 (current_request init)"
    by (simp add: spawn_def init_def)
  have ok: "run Part000 init race_loads = Some (the (run Part000 init race_loads))"
    by code_simp
  have l: "last_load_response race_loads = Some (''Cars196 ready'', Some ''Precision@1: 87.350%'')"
    by code_simp
  have ne: "run Part000 init race_loads \<noteq> None"
    by code_simp
  note T = load_last_settled_wins[of 0 ?s 1 "current_request init" Part000
      "''Ready''" "Some ''R@1: 91.200%''" init race_loads "the (run Part000 init race_loads)"]
  from T h1 h2 have a: "\<exists>s'. step Part000 ?s
           (PredictResolved 0 (LoadResourcesResponse ''Ready'' (Some ''R@1: 91.200%''))) = Some s' \<and>
         stats s' = parseStats_payload (Some ''R@1: 91.200%'') \<and> status s' = ''Ready''"
    by blast
  from T ok l have b: "stats (the (run Part000 init race_loads)) = parseStats_payload (Some ''Precision@1: 87.350%'')"
    by simp
  from a b h1 h2 ne l show ?thesis by blast
qed

text \<open>
  C2 as stated fails in both revisions: the selected dataset is \<^verbatim>\<open>CUB\<close> and the
  metrics are those of the response to the load for \<^verbatim>\<open>Cars196\<close>.
\<close>

theorem load_race_counterexample:
  "map_option (map task_request \<circ> tasks) (run Part000 init (take 2 race_loads))
     = Some [Some ''Cars196'', Some ''CUB''] \<and>
   map_option dataset (run PageTsx init race_loads) = Some ''CUB'' \<and>
   map_option dataset (run Part000 init race_loads) = Some ''CUB'' \<and>
   map_option stats (run PageTsx init race_loads) = Some (parseStats ''Precision@1: 87.350%'') \<and>
   map_option stats (run Part000 init race_loads) = Some (parseStats ''Precision@1: 87.350%'') \<and>
   parseStats ''Precision@1: 87.350%'' \<noteq> parseStats ''Precision@1: 50.000%''"
  by code_simp

subsection \<open>The connection getter\<close>

text \<open>
  C3, as amended. \<^verbatim>\<open>getGradioClient\<close> shares no attempt in flight. Every call made
  while no handle is memoized starts a connection attempt of its own: after any number of
  such calls the attempts in flight have grown by that number. A call made when a handle
  is memoized starts no attempt and receives the memoized handle. When an attempt
  resolves, the call that started it receives the handle of this attempt and the memoized
  reference is overwritten with it.
\<close>

theorem getGradioClient_one_attempt_per_caller:
  "(clientRef s = None \<and> (\<forall>e \<in> set evs. calls_getter v e) \<longrightarrow>
      (\<exists>s'. run v s evs = Some s' \<and> inflight_connects s' = inflight_connects s + length evs \<and>
            clientRef s' = None)) \<and>
   (clientRef sa = Some c \<and> calls_getter v e \<longrightarrow>
      (\<exists>s'. step v sa e = Some s' \<and> inflight_connects s' = inflight_connects sa \<and>
            task_client (last (tasks s')) = Some c)) \<and>
   (i < length (tasks sb) \<and> is_connecting (tasks sb ! i) \<longrightarrow>
      (\<exists>s'. step v sb (ConnectResolved i c') = Some s' \<and>
            task_client (tasks s' ! i) = Some c' \<and> clientRef s' = Some c'))"
  using run_triggers_empty_ref[of s evs v] trigger_memoized[of sa c v e]
    connect_resolved_own[of i sb v c']
  by blast

text \<open>
  The theorem on three callers before any connection exists (three attempts in flight), on
  a search made with the handle \<open>7\<close> memoized, and on an attempt resolving with the
  handle \<open>5\<close>.
\<close>

theorem getGradioClient_one_attempt_per_caller_witness:
  "clientRef init = None \<and>
   calls_getter Part000 Mount \<and> calls_getter Part000 (HandleSearch (Binary ''blob:1'')) \<and>
   calls_getter Part000 ClickRefresh \<and>
   (\<exists>s'. run Part000 init [Mount, HandleSearch (Binary ''blob:1''), ClickRefresh] = Some s' \<and>
         inflight_connects s' = 3 \<and> clientRef s' = None) \<and>
   clientRef (init\<lparr>clientRef := Some 7\<rparr>) = Some 7 \<and>
   (\<exists>s'. step Part000 (init\<lparr>clientRef := Some 7\<rparr>) (HandleSearch (Binary ''blob:1'')) = Some s' \<and>
         inflight_connects s' = 0 \<and> task_client (last (tasks s')) = Some 7) \<and>
   0 < length (tasks (spawn RefreshConnect init)) \<and>
   is_connecting (tasks (spawn RefreshConnect init) ! 0) \<and>
   (\<exists>s'. step Part000 (spawn RefreshConnect init) (ConnectResolved 0 5) = Some s' \<and>
         task_client (tasks s' ! 0) = Some 5 \<and> clientRef s' = Some 5)"
proof -
  have h1: "clientRef init = None" by (simp add: init_def)
  have h2: "\<forall>e \<in> set [Mount, HandleSearch (Binary ''blob:1''), ClickRefresh]. calls_getter Part000 e"
    by (simp add: calls_getter_def)
  have h3: "clientRef (init\<lparr>clientRef := Some 7\<rparr>) = Some 7" by simp
  have h4: "calls_getter Part000 (HandleSearch (Binary ''blob:1''))" by (simp add: calls_getter_def)
  have h5: "0 < length (tasks (spawn RefreshConnect init))" by (simp add: spawn_def init_def)
  have h6: "is_connecting (tasks (spawn RefreshConnect init) ! 0)"
    by (simp add: spawn_def init_def is_connecting_def)
  have z: "inflight_connects init = 0" "inflight_connects (init\<lparr>clientRef := Some 7\<rparr>) = 0"
    by (simp_all add: inflight_connects_def init_def)
  from getGradioClient_one_attempt_per_caller
         [of init "[Mount, HandleSearch (Binary ''blob:1''), ClickRefresh]" Part000
             "init\<lparr>clientRef := Some 7\<rparr>" 7 "HandleSearch (Binary ''blob:1'')" 0
             "spawn RefreshConnect init" 5]
       h1 h2 h3 h4 h5 h6 z
  show ?thesis by (simp add: eval_nat_numeral)
qed

text \<open>
  C3 as stated fails in both revisions: the resource load of the first render and a search
  made before the connection exists are two attempts in flight; when both resolve, the two
  callers hold different handles and the reference keeps the second.
\<close>

theorem connect_race_counterexample:
  "map_option inflight_connects
     (run PageTsx init [Mount, HandleSearch (ImageRef (ref_image ''a.png''))]) = Some 2 \<and>
   map_option inflight_connects
     (run Part000 init [Mount, HandleSearch (ImageRef (ref_image ''a.png''))]) = Some 2 \<and>
   map_option (map task_client \<circ> tasks)
     (run Part000 init [Mount, HandleSearch (ImageRef (ref_image ''a.png'')),
                        ConnectResolved 0 1, ConnectResolved 1 2]) = Some [Some 1, Some 2] \<and>
   map_option clientRef
     (run Part000 init [Mount, HandleSearch (ImageRef (ref_image ''a.png'')),
                        ConnectResolved 0 1, ConnectResolved 1 2]) = Some (Some 2)"
  by code_simp

text \<open>
  C8. A rejected connection attempt rejects the caller's \<^verbatim>\<open>await\<close> and stores
  nothing: the continuation of \<^verbatim>\<open>getGradioClient\<close> leaves the state as it is and
  hands the failure on; the event leaves \<^verbatim>\<open>clientRef\<close> as it was, ends the calling
  task and starts no new attempt. While the reference is empty, the next call of the
  getter starts a new attempt. Over any sequence of events the reference is the handle of
  the last resolved attempt, or what it was at the start: only a resolved attempt is ever
  memoized.
\<close>

theorem connect_failure_not_cached:
  "getGradioClient_settled s None = (s, None) \<and>
   (i < length (tasks sa) \<and> is_connecting (tasks sa ! i) \<longrightarrow>
      (\<exists>s'. step v sa (ConnectRejected i) = Some s' \<and> clientRef s' = clientRef sa \<and>
            tasks s' ! i = Finished \<and> Suc (inflight_connects s') = inflight_connects sa)) \<and>
   (clientRef sb = None \<and> calls_getter v e \<longrightarrow>
      (\<exists>s'. step v sb e = Some s' \<and> inflight_connects s' = Suc (inflight_connects sb))) \<and>
   (run v sc evs = Some sd \<longrightarrow>
      clientRef sd = (case last_connect_resolved evs of None \<Rightarrow> clientRef sc | Some c \<Rightarrow> Some c))"
proof -
  have "getGradioClient_settled s None = (s, None)"
    by (simp add: getGradioClient_settled_def)
  moreover have "clientRef sb = None \<and> calls_getter v e \<longrightarrow>
      (\<exists>s'. step v sb e = Some s' \<and> inflight_connects s' = Suc (inflight_connects sb))"
    using trigger_empty_ref[of sb v e] by blast
  ultimately show ?thesis
    using connect_rejected_step[of i sa v] run_clientRef[of v sc evs sd] by blast
qed

text \<open>
  The theorem on a search whose attempt is rejected, followed by a second search whose
  attempt resolves with the handle \<open>4\<close>.
\<close>

theorem connect_failure_not_cached_witness:
  "0 < length (tasks (spawn (SearchConnect (Binary ''blob:1'') 10) init)) \<and>
   is_connecting (tasks (spawn (SearchConnect (Binary ''blob:1'') 10) init) ! 0) \<and>
   (\<exists>s'. step Part000 (spawn (SearchConnect (Binary ''blob:1'') 10) init) (ConnectRejected 0) = Some s' \<and>
         clientRef s' = None \<and> tasks s' ! 0 = Finished \<and> inflight_connects s' = 0) \<and>
   clientRef init = None \<and> calls_getter Part000 Mount \<and>
   (\<exists>s'. step Part000 init Mount = Some s' \<and> inflight_connects s' = 1) \<and>
   run Part000 init retry_after_failure \<noteq> None \<and>
   clientRef (the (run Part000 init (take 2 retry_after_failure))) = None \<and>
   clientRef (the (run Part000 init retry_after_failure)) = Some 4"
proof -
  let ?s = "spawn (SearchConnect (Binary ''blob:1'') 10) init"
  have h1: "0 < length (tasks ?s)" by (simp add: spawn_def init_def)
  have h2: "is_connecting (tasks ?s ! 0)" by (simp add: spawn_def init_def is_connecting_def)
  have f: "clientRef ?s = None" "inflight_connects ?s = 1"
    by (simp_all add: spawn_def init_def inflight_connects_def is_connecting_def)
  have h3: "clientRef init = None" "calls_getter Part000 Mount" "inflight_connects init = 0"
    by (simp_all add: init_def calls_getter_def inflight_connects_def)
  have ne: "run Part000 init retry_after_failure \<noteq> None" by code_simp
  have ok: "run Part000 init retry_after_failure = Some (the (run Part000 init retry_after_failure))"
    by code_simp
  have ok2: "run Part000 init (take 2 retry_after_failure)
               = Some (the (run Part000 init (take 2 retry_after_failure)))"
    by code_simp
  have l: "last_connect_resolved retry_after_failure = Some 4"
          "last_connect_resolved (take 2 retry_after_failure) = None"
    by code_simp+
  note T1 = connect_failure_not_cached[of init 0 ?s Part000 init Mount init retry_after_failure
      "the (run Part000 init retry_after_failure)"]
  note T2 = connect_failure_not_cached[of init 0 ?s Part000 init Mount init
      "take 2 retry_after_failure" "the (run Part000 init (take 2 retry_after_failure))"]
  from T1 h1 h2 f have a: "\<exists>s'. step Part000 ?s (ConnectRejected 0) = Some s' \<and>
         clientRef s' = None \<and> tasks s' ! 0 = Finished \<and> inflight_connects s' = 0"
    by auto
  from T1 h3 have b: "\<exists>s'. step Part000 init Mount = Some s' \<and> inflight_connects s' = 1"
    by auto
  from T1 ok l(1) have c: "clientRef (the (run Part000 init retry_after_failure)) = Some 4"
    by simp
  from T2 ok2 l(2) h3(1) have d: "clientRef (the (run Part000 init (take 2 retry_after_failure))) = None"
    by simp
  from a b c d h1 h2 h3 ne show ?thesis by blast
qed

subsection \<open>A session with accepted state and calls in flight\<close>

lemma busy_reached:
  "run Part000 init (busy_events Part000) = Some (busy Part000)"
  "run PageTsx init (busy_events PageTsx) = Some (busy PageTsx)"
  "run Part000 init (busy_events Part000 @
     [PredictResolved 3 (LoadResourcesResponse ''CUB ready'' (Some ''Precision@1: 50.000%''))])
     = Some (fetching_examples Part000)"
  "run PageTsx init (busy_events PageTsx @
     [PredictResolved 3 (LoadResourcesResponse ''CUB ready'' (Some ''Precision@1: 50.000%''))])
     = Some (fetching_examples PageTsx)"
  by code_simp+

lemma busy_tasks:
  "tasks (busy Part000) =
     [Finished, Finished, SearchPredict 1 (RawBinary ''blob:1'') 10,
      LoadPredict 1 \<lparr>req_dataset = ''CUB'', dino_version = ''3'', dino_size = ''b'',
                      is_finetuned = False\<rparr>,
      RefreshPredict 1]"
  "tasks (fetching_examples Part000) =
     [Finished, Finished, SearchPredict 1 (RawBinary ''blob:1'') 10, LoadExamplesPredict 1,
      RefreshPredict 1]"
  "tasks (fetching_examples PageTsx) =
     [Finished, Finished, SearchPredict 1 (RawBinary ''blob:1'') 10, LoadExamplesPredict 1]"
  by code_simp+

lemma busy_cells:
  "results (busy Part000) = [ref_image ''near.png'']"
  "stats (busy Part000) = parseStats ''Precision@1: 87.350%''"
  "examples (busy Part000) = [ref_image ''ex.png'']"
  "status (busy Part000) = ''Downloading Weights & Mapping...''"
  "isSearching (busy Part000)" "isLoading (busy Part000)" "isExamplesLoading (busy Part000)"
  by code_simp+

lemma fetching_cells:
  "results (fetching_examples Part000) = [ref_image ''near.png'']"
  "stats (fetching_examples Part000) = parseStats ''Precision@1: 50.000%''"
  "examples (fetching_examples Part000) = [ref_image ''ex.png'']"
  "status (fetching_examples Part000) = ''CUB ready''"
  "isLoading (fetching_examples Part000)" "isExamplesLoading (fetching_examples Part000)"
  "results (fetching_examples PageTsx) = [ref_image ''near.png'']"
  "stats (fetching_examples PageTsx) = parseStats ''Precision@1: 50.000%''"
  "examples (fetching_examples PageTsx) = [ref_image ''ex.png'']"
  "status (fetching_examples PageTsx) = ''CUB ready''"
  "isLoading (fetching_examples PageTsx)"
  by code_simp+

lemma stats_present:
  "parseStats ''Precision@1: 87.350%'' \<noteq> None" "parseStats ''Precision@1: 50.000%'' \<noteq> None"
  by (simp_all add: parseStats_def)

lemma parseStats_payload_not_text: "parseStats_payload None = None"
  by (simp add: parseStats_payload_def)

subsection \<open>Failures\<close>

text \<open>
  C6, as amended. When the backend call a task waits for is rejected, the accepted
  \<^verbatim>\<open>results\<close>, \<^verbatim>\<open>stats\<close> and \<^verbatim>\<open>examples\<close> are unchanged, and:
  a search sets the status to \<^verbatim>\<open>"Search Failed"\<close> and clears
  \<^verbatim>\<open>isSearching\<close>; a resource load sets it to \<^verbatim>\<open>"Sync Failed"\<close> and clears
  \<^verbatim>\<open>isLoading\<close>; an example refresh clears \<^verbatim>\<open>isExamplesLoading\<close> and leaves
  the status as it was (the failure is only logged), also when it runs inside a resource
  load of \<^verbatim>\<open>part_000\<close>, which then clears \<^verbatim>\<open>isLoading\<close> too; in
  \<^verbatim>\<open>page.tsx\<close> the example fetch is part of the resource load and its failure sets
  \<^verbatim>\<open>"Sync Failed"\<close>.
\<close>

theorem failure_keeps_accepted_state:
  "i < length (tasks s) \<Longrightarrow> tasks s ! i \<noteq> Finished \<Longrightarrow>
     \<exists>s'. step v s (rejection_of i (tasks s ! i)) = Some s' \<and>
          results s' = results s \<and> stats s' = stats s \<and> examples s' = examples s \<and>
          failure_outcome v (tasks s ! i) s s'"
  by (rule rejection_step)

text \<open>
  The theorem on the session \<open>busy\<close>, which shows results, metrics and examples and has
  all three flags set: the rejection of its pending search, of its pending load and of its
  pending example refresh; and on the example fetch of a load, rejected in
  \<^verbatim>\<open>part_000\<close> and in \<^verbatim>\<open>page.tsx\<close>. Each time the three accepted cells are
  what they were.
\<close>

theorem failure_keeps_accepted_state_witness:
  "run Part000 init (busy_events Part000) = Some (busy Part000) \<and>
   tasks (busy Part000) =
     [Finished, Finished, SearchPredict 1 (RawBinary ''blob:1'') 10,
      LoadPredict 1 \<lparr>req_dataset = ''CUB'', dino_version = ''3'', dino_size = ''b'',
                      is_finetuned = False\<rparr>,
      RefreshPredict 1] \<and>
   results (busy Part000) = [ref_image ''near.png''] \<and>
   stats (busy Part000) = parseStats ''Precision@1: 87.350%'' \<and>
   parseStats ''Precision@1: 87.350%'' \<noteq> None \<and>
   examples (busy Part000) = [ref_image ''ex.png''] \<and>
   status (busy Part000) = ''Downloading Weights & Mapping...'' \<and>
   isSearching (busy Part000) \<and> isLoading (busy Part000) \<and> isExamplesLoading (busy Part000) \<and>
   (\<exists>s'. step Part000 (busy Part000) (PredictRejected 2) = Some s' \<and>
         results s' = [ref_image ''near.png''] \<and> stats s' = parseStats ''Precision@1: 87.350%'' \<and>
         examples s' = [ref_image ''ex.png''] \<and>
         status s' = ''Search Failed'' \<and> \<not> isSearching s') \<and>
   (\<exists>s'. step Part000 (busy Part000) (PredictRejected 3) = Some s' \<and>
         results s' = [ref_image ''near.png''] \<and> stats s' = parseStats ''Precision@1: 87.350%'' \<and>
         examples s' = [ref_image ''ex.png''] \<and>
         status s' = ''Sync Failed'' \<and> \<not> isLoading s') \<and>
   (\<exists>s'. step Part000 (busy Part000) (PredictRejected 4) = Some s' \<and>
         results s' = [ref_image ''near.png''] \<and> stats s' = parseStats ''Precision@1: 87.350%'' \<and>
         examples s' = [ref_image ''ex.png''] \<and>
         status s' = ''Downloading Weights & Mapping...'' \<and> \<not> isExamplesLoading s') \<and>
   tasks (fetching_examples Part000) ! 3 = LoadExamplesPredict 1 \<and>
   (\<exists>s'. step Part000 (fetching_examples Part000) (PredictRejected 3) = Some s' \<and>
         results s' = [ref_image ''near.png''] \<and> stats s' = parseStats ''Precision@1: 50.000%'' \<and>
         examples s' = [ref_image ''ex.png''] \<and>
         status s' = ''CUB ready'' \<and> \<not> isExamplesLoading s' \<and> \<not> isLoading s') \<and>
   tasks (fetching_examples PageTsx) ! 3 = LoadExamplesPredict 1 \<and>
   (\<exists>s'. step PageTsx (fetching_examples PageTsx) (PredictRejected 3) = Some s' \<and>
         results s' = [ref_image ''near.png''] \<and> stats s' = parseStats ''Precision@1: 50.000%'' \<and>
         examples s' = [ref_image ''ex.png''] \<and>
         status s' = ''Sync Failed'' \<and> \<not> isLoading s')"
proof -
  have search: "\<exists>s'. step Part000 (busy Part000) (PredictRejected 2) = Some s' \<and>
         results s' = [ref_image ''near.png''] \<and> stats s' = parseStats ''Precision@1: 87.350%'' \<and>
         examples s' = [ref_image ''ex.png''] \<and>
         status s' = ''Search Failed'' \<and> \<not> isSearching s'"
    using failure_keeps_accepted_state[of 2 "busy Part000" Part000]
    by (simp add: busy_tasks busy_cells rejection_of_def is_connecting_def failure_outcome_def)
  have load: "\<exists>s'. step Part000 (busy Part000) (PredictRejected 3) = Some s' \<and>
         results s' = [ref_image ''near.png''] \<and> stats s' = parseStats ''Precision@1: 87.350%'' \<and>
         examples s' = [ref_image ''ex.png''] \<and>
         status s' = ''Sync Failed'' \<and> \<not> isLoading s'"
    using failure_keeps_accepted_state[of 3 "busy Part000" Part000]
    by (simp add: busy_tasks busy_cells rejection_of_def is_connecting_def failure_outcome_def)
  have refresh: "\<exists>s'. step Part000 (busy Part000) (PredictRejected 4) = Some s' \<and>
         results s' = [ref_image ''near.png''] \<and> stats s' = parseStats ''Precision@1: 87.350%'' \<and>
         examples s' = [ref_image ''ex.png''] \<and>
         status s' = ''Downloading Weights & Mapping...'' \<and> \<not> isExamplesLoading s'"
    using failure_keeps_accepted_state[of 4 "busy Part000" Part000]
    by (simp add: busy_tasks busy_cells rejection_of_def is_connecting_def failure_outcome_def)
  have nested: "\<exists>s'. step Part000 (fetching_examples Part000) (PredictRejected 3) = Some s' \<and>
         results s' = [ref_image ''near.png''] \<and> stats s' = parseStats ''Precision@1: 50.000%'' \<and>
         examples s' = [ref_image ''ex.png''] \<and>
         status s' = ''CUB ready'' \<and> \<not> isExamplesLoading s' \<and> \<not> isLoading s'"
    using failure_keeps_accepted_state[of 3 "fetching_examples Part000" Part000]
    by (simp add: busy_tasks fetching_cells rejection_of_def is_connecting_def failure_outcome_def)
  have inline: "\<exists>s'. step PageTsx (fetching_examples PageTsx) (PredictRejected 3) = Some s' \<and>
         results s' = [ref_image ''near.png''] \<and> stats s' = parseStats ''Precision@1: 50.000%'' \<and>
         examples s' = [ref_image ''ex.png''] \<and>
         status s' = ''Sync Failed'' \<and> \<not> isLoading s'"
    using failure_keeps_accepted_state[of 3 "fetching_examples PageTsx" PageTsx]
    by (simp add: busy_tasks fetching_cells rejection_of_def is_connecting_def failure_outcome_def)
  have t: "tasks (fetching_examples Part000) ! 3 = LoadExamplesPredict 1"
          "tasks (fetching_examples PageTsx) ! 3 = LoadExamplesPredict 1"
    by (simp_all add: busy_tasks)
  from search load refresh nested inline t busy_reached(1) busy_tasks(1) busy_cells stats_present(1)
  show ?thesis by blast
qed

text \<open>
  C6 as stated fails for the example refresh of \<^verbatim>\<open>part_000\<close>: after the rejection
  the status is the text it was before, not a failure text.
\<close>

theorem refresh_failure_counterexample:
  "map_option status (run Part000 init [ClickRefresh, ConnectResolved 0 1]) = Some ''Initializing...'' \<and>
   map_option status (run Part000 init [ClickRefresh, ConnectResolved 0 1, PredictRejected 0])
     = Some ''Initializing...'' \<and>
   map_option isExamplesLoading (run Part000 init [ClickRefresh, ConnectResolved 0 1, PredictRejected 0])
     = Some False"
  by code_simp




subsection \<open>The preview of the query\<close>

text \<open>
  C9. The event of a search trigger sets \<^verbatim>\<open>activeQuery\<close> to the preview in the same
  step that suspends the call at its first backend \<^verbatim>\<open>await\<close>, so before any
  settlement: the object URL for a \<^verbatim>\<open>File\<close> or \<^verbatim>\<open>Blob\<close>, the resolved image URL
  for an image reference. No settlement, success or failure, changes it: over any sequence
  of events the preview is that of the last trigger.
\<close>

theorem activeQuery_set_at_trigger:
  "(\<exists>s'. step v s (HandleSearch src) = Some s' \<and> activeQuery s' = Some (previewUrl src) \<and>
         is_search (last (tasks s')) \<and> length (tasks s') = Suc (length (tasks s))) \<and>
   previewUrl (Binary u) = createObjectURL (Binary u) \<and>
   previewUrl (ImageRef g) = getImageUrl (Some g) \<and>
   (run v sa evs = Some sb \<longrightarrow>
      activeQuery sb =
        (case last_search_trigger evs of None \<Rightarrow> activeQuery sa
                                       | Some src' \<Rightarrow> Some (previewUrl src')))"
  using handleSearch_step[of v s src] run_activeQuery[of v sa evs sb]
  by (simp add: previewUrl_def)

text \<open>
  The theorem on a search by reference, and on two uploads of which the first fails to
  connect.
\<close>

theorem activeQuery_set_at_trigger_witness:
  "run Part000 init retry_after_failure \<noteq> None \<and>
   last_search_trigger retry_after_failure = Some (Binary ''blob:2'') \<and>
   activeQuery (the (run Part000 init retry_after_failure)) = Some ''blob:2'' \<and>
   (\<exists>s'. step Part000 init (HandleSearch (ImageRef (ref_image ''a.png''))) = Some s' \<and>
         activeQuery s' = Some ''a.png'')"
proof -
  have ne: "run Part000 init retry_after_failure \<noteq> None" by code_simp
  have ok: "run Part000 init retry_after_failure = Some (the (run Part000 init retry_after_failure))"
    by code_simp
  have l: "last_search_trigger retry_after_failure = Some (Binary ''blob:2'')" by code_simp
  have p: "previewUrl (ImageRef (ref_image ''a.png'')) = ''a.png''"
          "previewUrl (Binary ''blob:2'') = ''blob:2''"
    by code_simp+
  note T = activeQuery_set_at_trigger[of Part000 init "ImageRef (ref_image ''a.png'')" "[]"
      "ref_image ''a.png''" init retry_after_failure "the (run Part000 init retry_after_failure)"]
  from T ok l p(2) have a: "activeQuery (the (run Part000 init retry_after_failure)) = Some ''blob:2''"
    by simp
  from T p(1) have b: "\<exists>s'. step Part000 init (HandleSearch (ImageRef (ref_image ''a.png''))) = Some s' \<and>
         activeQuery s' = Some ''a.png''"
    by auto
  from a b ne l show ?thesis by blast
qed

end
